theory Spec2Isabelle
  imports Main
begin

section \<open>JavaScript values\<close>

text \<open>
  The route handler of \<^verbatim>\<open>src/app/api/zoho/subscribe/route.js\<close> works on parsed JSON and on
  the values JavaScript derives from it. A value is one of the JSON shapes or
  \<^verbatim>\<open>undefined\<close>. Numbers are integers (the doubles of the source are exact on them
  below \<open>2^53\<close>); a string is a list of code units below 256; an object is an association
  list read from the left.
\<close>

datatype jsval =
    JUndefined
  | JNull
  | JBool bool
  | JNum int
  | JStr string
  | JArr "jsval list"
  | JObj "(string \<times> jsval) list"

text \<open>A thrown value: \<^verbatim>\<open>new Error(msg)\<close> of the source, or a \<^verbatim>\<open>TypeError\<close> raised by the
  engine (its wording is the engine's; the model carries a description).\<close>

datatype js_error = Error string | TypeError string

fun error_message :: "js_error \<Rightarrow> string" where
  "error_message (Error m) = m"
| "error_message (TypeError m) = m"

text \<open>Truthiness, as \<^verbatim>\<open>!x\<close>, \<^verbatim>\<open>x && y\<close> and \<^verbatim>\<open>x || y\<close> read it.\<close>

fun truthy :: "jsval \<Rightarrow> bool" where
  "truthy JUndefined = False"
| "truthy JNull = False"
| "truthy (JBool b) = b"
| "truthy (JNum n) = (n \<noteq> 0)"
| "truthy (JStr s) = (s \<noteq> [])"
| "truthy (JArr xs) = True"
| "truthy (JObj kvs) = True"

text \<open>\<^verbatim>\<open>a || b\<close> on values.\<close>

definition js_or :: "jsval \<Rightarrow> jsval \<Rightarrow> jsval" where
  "js_or a b = (if truthy a then a else b)"

fun nullish :: "jsval \<Rightarrow> bool" where
  "nullish JUndefined = True"
| "nullish JNull = True"
| "nullish v = False"

definition lookup :: "(string \<times> jsval) list \<Rightarrow> string \<Rightarrow> jsval" where
  "lookup kvs k = (case map_of kvs k of None \<Rightarrow> JUndefined | Some v \<Rightarrow> v)"

text \<open>
  \<^verbatim>\<open>x.p\<close> for the property names the program reads by name: it throws on
  \<^verbatim>\<open>undefined\<close> and \<^verbatim>\<open>null\<close>; strings and arrays have \<^verbatim>\<open>length\<close>; an object
  yields its own property; everything else is \<^verbatim>\<open>undefined\<close>.
\<close>

fun get_prop :: "jsval \<Rightarrow> string \<Rightarrow> js_error + jsval" where
  "get_prop JUndefined p = Inl (TypeError (''Cannot read properties of undefined: '' @ p))"
| "get_prop JNull p = Inl (TypeError (''Cannot read properties of null: '' @ p))"
| "get_prop (JStr s) p = Inr (if p = ''length'' then JNum (int (length s)) else JUndefined)"
| "get_prop (JArr xs) p = Inr (if p = ''length'' then JNum (int (length xs)) else JUndefined)"
| "get_prop (JObj kvs) p = Inr (lookup kvs p)"
| "get_prop v p = Inr JUndefined"

text \<open>\<^verbatim>\<open>x?.p\<close>: \<^verbatim>\<open>undefined\<close> on a nullish \<open>x\<close>, and never throws.\<close>

fun opt_prop :: "jsval \<Rightarrow> string \<Rightarrow> jsval" where
  "opt_prop (JStr s) p = (if p = ''length'' then JNum (int (length s)) else JUndefined)"
| "opt_prop (JArr xs) p = (if p = ''length'' then JNum (int (length xs)) else JUndefined)"
| "opt_prop (JObj kvs) p = lookup kvs p"
| "opt_prop v p = JUndefined"

subsection \<open>Strings\<close>

definition code_unit :: "char \<Rightarrow> nat" where
  "code_unit c = of_char c"

text \<open>White space and line terminators that \<^verbatim>\<open>String.prototype.trim\<close> strips, among
  the code units below 256: tab, LF, VT, FF, CR, space and the no-break space.\<close>

definition is_ws :: "char \<Rightarrow> bool" where
  "is_ws c = (code_unit c \<in> {9, 10, 11, 12, 13, 32, 160})"

definition trim :: "string \<Rightarrow> string" where
  "trim s = rev (dropWhile is_ws (rev (dropWhile is_ws s)))"

text \<open>\<^verbatim>\<open>toLowerCase\<close> on code units below 256: the ASCII capitals and the Latin-1
  capitals (all of \<open>0xC0..0xDE\<close> but the multiplication sign) move up by 32.\<close>

definition lower_char :: "char \<Rightarrow> char" where
  "lower_char c =
     (let n = code_unit c in
      if (65 \<le> n \<and> n \<le> 90) \<or> (192 \<le> n \<and> n \<le> 222 \<and> n \<noteq> 215)
      then char_of (n + 32) else c)"

definition toLowerCase :: "string \<Rightarrow> string" where
  "toLowerCase s = map lower_char s"

text \<open>A regular expression with the \<^verbatim>\<open>i\<close> flag and an ASCII pattern compares ASCII
  letters without case and every other code unit exactly.\<close>

definition fold_ascii :: "char \<Rightarrow> char" where
  "fold_ascii c = (let n = code_unit c in if 65 \<le> n \<and> n \<le> 90 then char_of (n + 32) else c)"

definition starts_with :: "string \<Rightarrow> string \<Rightarrow> bool" where
  "starts_with s pat = (take (length pat) s = pat)"

text \<open>\<^verbatim>\<open>s.includes(pat)\<close>: \<open>pat\<close> occurs in \<open>s\<close> at some position.\<close>

fun str_includes :: "string \<Rightarrow> string \<Rightarrow> bool" where
  "str_includes [] pat = (pat = [])"
| "str_includes (c # cs) pat = (starts_with (c # cs) pat \<or> str_includes cs pat)"

text \<open>\<^verbatim>\<open>/email/i.test(s)\<close> and \<^verbatim>\<open>/record added|success/i.test(s)\<close> on a string.\<close>

definition test_email :: "string \<Rightarrow> bool" where
  "test_email s = str_includes (map fold_ascii s) ''email''"

definition test_success :: "string \<Rightarrow> bool" where
  "test_success s =
     (str_includes (map fold_ascii s) ''record added'' \<or> str_includes (map fold_ascii s) ''success'')"

text \<open>Decimal digits of an integer, as \<^verbatim>\<open>String(n)\<close> prints a safe integer.\<close>

fun show_nat :: "nat \<Rightarrow> string" where
  "show_nat n = (if n < 10 then [char_of (48 + n)] else show_nat (n div 10) @ [char_of (48 + n mod 10)])"

declare show_nat.simps [simp del]

definition show_int :: "int \<Rightarrow> string" where
  "show_int i = (if i < 0 then CHR ''-'' # show_nat (nat (- i)) else show_nat (nat i))"

fun join :: "string \<Rightarrow> string list \<Rightarrow> string" where
  "join sep [] = []"
| "join sep [x] = x"
| "join sep (x # y # ys) = x @ sep @ join sep (y # ys)"

text \<open>\<^verbatim>\<open>String(v)\<close>: what a template literal and \<^verbatim>\<open>RegExp.prototype.test\<close> make of a
  value. An array joins its elements with commas, a nullish element printing as the
  empty string.\<close>

fun to_string :: "jsval \<Rightarrow> string" where
  "to_string JUndefined = ''undefined''"
| "to_string JNull = ''null''"
| "to_string (JBool b) = (if b then ''true'' else ''false'')"
| "to_string (JNum n) = show_int n"
| "to_string (JStr s) = s"
| "to_string (JArr xs) = join '','' (map (\<lambda>x. if nullish x then [] else to_string x) xs)"
| "to_string (JObj kvs) = ''[object Object]''"

section \<open>The response classifier: mapZohoError\<close>

text \<open>The object \<^verbatim>\<open>mapZohoError\<close> returns; \<open>duplicateField\<close> is \<^verbatim>\<open>undefined\<close> on the
  branches that do not set it.\<close>

record error_mapping =
  message :: jsval
  duplicateField :: jsval
  status :: nat

definition already_subscribed :: string where
  "already_subscribed =
     ''This email address is already subscribed. Please use a different email address.''"

text \<open>Lines 138 to 150: \<open>duplicateField\<close> starts as \<^verbatim>\<open>null\<close>; a truthy
  \<^verbatim>\<open>errorDetails?.api_name\<close> is lowercased (a \<^verbatim>\<open>TypeError\<close> when it is not a string) and
  searched for \<^verbatim>\<open>email\<close>.\<close>

definition dup_from_api_name :: "jsval \<Rightarrow> js_error + jsval" where
  "dup_from_api_name errorDetails =
     (let a = opt_prop errorDetails ''api_name'' in
      if truthy a then
        (case a of
           JStr s \<Rightarrow>
             (let apiName = toLowerCase s in
              Inr (if apiName = ''email'' \<or> str_includes apiName ''email''
                   then JStr ''Email'' else JNull))
         | _ \<Rightarrow> Inl (TypeError ''errorDetails.api_name.toLowerCase is not a function''))
      else Inr JNull)"

text \<open>Lines 153 to 157: the message is searched only when the first rule found nothing.\<close>

definition dup_from_message :: "jsval \<Rightarrow> jsval \<Rightarrow> jsval" where
  "dup_from_message d errorMessage =
     (if \<not> truthy d \<and> test_email (to_string errorMessage) then JStr ''Email'' else d)"

text \<open>Lines 160 to 162: the fixed default.\<close>

definition dup_default :: "jsval \<Rightarrow> jsval" where
  "dup_default d = (if \<not> truthy d then JStr ''Email'' else d)"

definition mapZohoError :: "jsval \<Rightarrow> jsval \<Rightarrow> jsval \<Rightarrow> js_error + error_mapping" where
  "mapZohoError errorCode errorMessage errorDetails =
     (let defaultMessage = js_or errorMessage (JStr ''Failed to subscribe. Please try again.'') in
      if errorCode = JStr ''DUPLICATE_DATA'' then
        (case dup_from_api_name errorDetails of
           Inl e \<Rightarrow> Inl e
         | Inr d1 \<Rightarrow>
             Inr \<lparr>message = JStr already_subscribed,
                  duplicateField = dup_default (dup_from_message d1 errorMessage),
                  status = 409\<rparr>)
      else if errorCode = JStr ''MANDATORY_NOT_FOUND'' then
        Inr \<lparr>message = JStr ''Required information is missing. Please fill all required fields.'',
             duplicateField = JUndefined, status = 400\<rparr>
      else if errorCode = JStr ''INVALID_DATA'' then
        Inr \<lparr>message = JStr ''Invalid information provided. Please check your input and try again.'',
             duplicateField = JUndefined, status = 400\<rparr>
      else if errorCode = JStr ''AUTHENTICATION_FAILURE'' then
        Inr \<lparr>message = JStr ''Authentication error. Please contact support.'',
             duplicateField = JUndefined, status = 401\<rparr>
      else
        Inr \<lparr>message = defaultMessage, duplicateField = JUndefined,
             status = (if errorCode = JStr ''DUPLICATE_DATA'' then 409 else 400)\<rparr>)"

section \<open>Numbers from values\<close>

text \<open>
  \<^verbatim>\<open>ToNumber\<close>, which \<^verbatim>\<open>expiresIn * 1000\<close> and \<^verbatim>\<open>i.length > 0\<close> apply to their left
  operand; \<open>None\<close> is \<^verbatim>\<open>NaN\<close>. How the engine reads a string as a number is not code of
  this program: it is the parameter \<open>str_to_number\<close>, and every result below holds for
  each such function. An array is first printed as a string, an object is \<^verbatim>\<open>NaN\<close>.
\<close>

fun to_number :: "(string \<Rightarrow> int option) \<Rightarrow> jsval \<Rightarrow> int option" where
  "to_number str_to_number JUndefined = None"
| "to_number str_to_number JNull = Some 0"
| "to_number str_to_number (JBool b) = Some (if b then 1 else 0)"
| "to_number str_to_number (JNum n) = Some n"
| "to_number str_to_number (JStr s) = str_to_number s"
| "to_number str_to_number (JArr xs) = str_to_number (to_string (JArr xs))"
| "to_number str_to_number (JObj kvs) = None"

text \<open>\<^verbatim>\<open>v > 0\<close>: false on \<^verbatim>\<open>NaN\<close>.\<close>

definition js_gt0 :: "(string \<Rightarrow> int option) \<Rightarrow> jsval \<Rightarrow> bool" where
  "js_gt0 str_to_number v = (case to_number str_to_number v of None \<Rightarrow> False | Some n \<Rightarrow> 0 < n)"

section \<open>Token cache and OAuth management\<close>

text \<open>\<^verbatim>\<open>process.env\<close>: each variable is a string or unset.\<close>

record environment =
  ZOHO_CRM_REFRESH_TOKEN :: "string option"
  ZOHO_CRM_CLIENT_ID :: "string option"
  ZOHO_CRM_CLIENT_SECRET :: "string option"
  ZOHO_CRM_ACCOUNTS_DOMAIN :: "string option"
  NODE_ENV :: "string option"

text \<open>\<^verbatim>\<open>process.env.X?.trim()\<close>\<close>

definition env_trim :: "string option \<Rightarrow> jsval" where
  "env_trim v = (case v of None \<Rightarrow> JUndefined | Some s \<Rightarrow> JStr (trim s))"

text \<open>
  \<^verbatim>\<open>globalThis.__ZOHO_TOKEN_CACHE\<close>. \<open>expires_at\<close> is a number, \<open>None\<close> standing for
  \<^verbatim>\<open>NaN\<close>; \<open>refreshPromise\<close> is \<^verbatim>\<open>null\<close> (\<open>None\<close>) or the promise of the refresh in
  flight, numbered by the request it sent.
\<close>

record token_cache =
  access_token :: jsval
  expires_at :: "int option"
  refreshPromise :: "nat option"

definition initial_cache :: token_cache where
  "initial_cache = \<lparr>access_token = JNull, expires_at = Some 0, refreshPromise = None\<rparr>"

text \<open>Lines 32 to 36: the cached token is returned when all three conjuncts hold.
  \<open>now\<close> is \<^verbatim>\<open>Date.now()\<close>, the milliseconds elapsed since the epoch.\<close>

definition token_valid :: "token_cache \<Rightarrow> nat \<Rightarrow> bool" where
  "token_valid c now =
     (truthy (access_token c) \<and>
      (case expires_at c of None \<Rightarrow> False | Some e \<Rightarrow> e \<noteq> 0) \<and>
      (case expires_at c of None \<Rightarrow> False | Some e \<Rightarrow> int now < e - 30000))"

text \<open>Lines 53 to 57: the names pushed to \<open>missing\<close>, in the source's order.\<close>

definition missing_credentials :: "environment \<Rightarrow> string list" where
  "missing_credentials env =
     (let refreshToken = env_trim (ZOHO_CRM_REFRESH_TOKEN env);
          clientId = env_trim (ZOHO_CRM_CLIENT_ID env);
          clientSecret = env_trim (ZOHO_CRM_CLIENT_SECRET env)
      in (if \<not> truthy refreshToken then [''ZOHO_CRM_REFRESH_TOKEN''] else []) @
         (if \<not> truthy clientId then [''ZOHO_CRM_CLIENT_ID''] else []) @
         (if \<not> truthy clientSecret then [''ZOHO_CRM_CLIENT_SECRET''] else []))"

definition missing_error :: "string list \<Rightarrow> js_error" where
  "missing_error missing =
     Error (''Missing Zoho OAuth credentials: '' @ join '', '' missing @
            ''. Please set these environment variables.'')"

text \<open>\<^verbatim>\<open>encodeURIComponent\<close> on code units below 256: letters, digits and
  \<^verbatim>\<open>- _ . ! ~ * ' ( )\<close> stand for themselves, every other unit is the percent-encoding
  of its UTF-8 bytes.\<close>

definition hex_digit :: "nat \<Rightarrow> char" where
  "hex_digit n = (if n < 10 then char_of (48 + n) else char_of (55 + n))"

definition percent :: "nat \<Rightarrow> string" where
  "percent b = [CHR ''%'', hex_digit (b div 16), hex_digit (b mod 16)]"

definition unreserved :: "nat \<Rightarrow> bool" where
  "unreserved n =
     ((65 \<le> n \<and> n \<le> 90) \<or> (97 \<le> n \<and> n \<le> 122) \<or> (48 \<le> n \<and> n \<le> 57) \<or>
      n \<in> {45, 95, 46, 33, 126, 42, 39, 40, 41})"

definition encode_unit :: "char \<Rightarrow> string" where
  "encode_unit c =
     (let n = code_unit c in
      if unreserved n then [c]
      else if n < 128 then percent n
      else percent (192 + n div 64) @ percent (128 + n mod 64))"

definition encodeURIComponent :: "string \<Rightarrow> string" where
  "encodeURIComponent s = concat (map encode_unit s)"

text \<open>Lines 50, 51 and 68: the provider base URL with its default, and the refresh URL.\<close>

definition accountsDomain :: "environment \<Rightarrow> jsval" where
  "accountsDomain env =
     js_or (env_trim (ZOHO_CRM_ACCOUNTS_DOMAIN env)) (JStr ''https://accounts.zoho.in'')"

definition tokenUrl :: "environment \<Rightarrow> string" where
  "tokenUrl env =
     to_string (accountsDomain env) @ ''/oauth/v2/token?refresh_token='' @
     encodeURIComponent (to_string (env_trim (ZOHO_CRM_REFRESH_TOKEN env))) @
     ''&client_id='' @ encodeURIComponent (to_string (env_trim (ZOHO_CRM_CLIENT_ID env))) @
     ''&client_secret='' @ encodeURIComponent (to_string (env_trim (ZOHO_CRM_CLIENT_SECRET env))) @
     ''&grant_type=refresh_token''"

subsection \<open>What a fetch settles with\<close>

text \<open>
  A \<^verbatim>\<open>fetch\<close> followed by \<^verbatim>\<open>response.text()\<close> either rejects or yields the reply:
  \<open>ok\<close> and the body text, which \<^verbatim>\<open>JSON.parse\<close> either refuses (the text is kept)
  or turns into a value.
\<close>

datatype parsed = Unparsable string | Parsed jsval

record http_reply =
  ok :: bool
  reply_body :: parsed

datatype fetch_outcome = Rejected js_error | Replied http_reply

definition bind_err :: "js_error + 'a \<Rightarrow> ('a \<Rightarrow> js_error + 'b) \<Rightarrow> js_error + 'b" where
  "bind_err m f = (case m of Inl e \<Rightarrow> Inl e | Inr v \<Rightarrow> f v)"

text \<open>Lines 91 to 96: the first truthy of \<^verbatim>\<open>error_description\<close>, \<^verbatim>\<open>error\<close>,
  \<^verbatim>\<open>message\<close>, else the fixed text; then the error that is thrown.\<close>

definition token_errorMsg :: "jsval \<Rightarrow> js_error + jsval" where
  "token_errorMsg tokenData =
     bind_err (get_prop tokenData ''error_description'') (\<lambda>a.
       if truthy a then Inr a else
       bind_err (get_prop tokenData ''error'') (\<lambda>b.
         if truthy b then Inr b else
         bind_err (get_prop tokenData ''message'') (\<lambda>c.
           Inr (js_or c (JStr ''Unknown token error'')))))"

definition token_failure :: "jsval \<Rightarrow> js_error" where
  "token_failure tokenData =
     (case token_errorMsg tokenData of
        Inl e \<Rightarrow> e
      | Inr errorMsg \<Rightarrow> Error (''Failed to refresh Zoho token: '' @ to_string errorMsg))"

text \<open>Lines 101 to 106: the credential is installed; \<open>now\<close> is the \<^verbatim>\<open>Date.now()\<close> of
  line 104.\<close>

definition install_token ::
  "(string \<Rightarrow> int option) \<Rightarrow> nat \<Rightarrow> jsval \<Rightarrow> jsval \<Rightarrow> token_cache \<Rightarrow> token_cache" where
  "install_token str_to_number now accessToken expires_in c =
     (let expiresIn = js_or expires_in (JNum 3600) in
      c\<lparr>access_token := accessToken,
        expires_at := map_option (\<lambda>n. int now + n * 1000) (to_number str_to_number expiresIn)\<rparr>)"

text \<open>Lines 65 to 106, the \<^verbatim>\<open>try\<close> block of the refresh once its fetch has settled: the
  value the block returns or throws, and the cache it leaves.\<close>

definition refresh_try ::
  "(string \<Rightarrow> int option) \<Rightarrow> nat \<Rightarrow> fetch_outcome \<Rightarrow> token_cache
     \<Rightarrow> (js_error + jsval) \<times> token_cache" where
  "refresh_try str_to_number now outcome c =
     (case outcome of
        Rejected e \<Rightarrow> (Inl e, c)
      | Replied tokenResponse \<Rightarrow>
          (case reply_body tokenResponse of
             Unparsable tokenResponseText \<Rightarrow>
               (Inl (Error ''Failed to refresh Zoho token (invalid JSON response)''), c)
           | Parsed tokenData \<Rightarrow>
               if \<not> ok tokenResponse then (Inl (token_failure tokenData), c)
               else
                 (case get_prop tokenData ''access_token'' of
                    Inl e \<Rightarrow> (Inl e, c)
                  | Inr accessToken \<Rightarrow>
                      if \<not> truthy accessToken then (Inl (token_failure tokenData), c)
                      else
                        (Inr accessToken,
                         install_token str_to_number now accessToken
                           (opt_prop tokenData ''expires_in'') c))))"

text \<open>Lines 107 to 110: the \<^verbatim>\<open>finally\<close> block runs on every exit of the \<^verbatim>\<open>try\<close>.\<close>

definition refresh_IIFE ::
  "(string \<Rightarrow> int option) \<Rightarrow> nat \<Rightarrow> fetch_outcome \<Rightarrow> token_cache
     \<Rightarrow> (js_error + jsval) \<times> token_cache" where
  "refresh_IIFE str_to_number now outcome c =
     (case refresh_try str_to_number now outcome c of
        (r, c') \<Rightarrow> (r, c'\<lparr>refreshPromise := None\<rparr>))"

subsection \<open>Calls and settlements\<close>

text \<open>
  JavaScript runs one synchronous stretch at a time. A call of
  \<^verbatim>\<open>getZohoAccessToken\<close> runs without interruption up to its first \<^verbatim>\<open>await\<close>; the
  refresh continues when its fetch settles, and the calls awaiting the promise resume
  after it, in the order in which they began to wait. The world records the cache, the
  URLs requested from the identity provider, the calls awaiting the refresh promise,
  the calls that have returned or thrown, and the requests sent to the CRM.
\<close>

datatype waiter = Leader nat | Follower nat

record world =
  cache :: token_cache
  token_requests :: "string list"
  waiting :: "waiter list"
  settled :: "(nat \<times> (js_error + jsval)) list"
  crm_requests :: "(string \<times> jsval) list"

definition initial_world :: world where
  "initial_world =
     \<lparr>cache = initial_cache, token_requests = [], waiting = [], settled = [], crm_requests = []\<rparr>"

datatype call_result = Returned "js_error + jsval" | Awaiting

text \<open>
  Lines 26 to 64 and 113 to 114, up to the \<^verbatim>\<open>await\<close>: caller \<open>c\<close> at time \<open>now\<close>
  returns the valid cached token, or awaits the refresh in flight, or throws on missing
  credentials, or starts the refresh (the fetch is sent, the promise stored) and awaits
  it as its leader.
\<close>

definition getZohoAccessToken_begin ::
  "environment \<Rightarrow> nat \<Rightarrow> nat \<Rightarrow> world \<Rightarrow> call_result \<times> world" where
  "getZohoAccessToken_begin env c now w =
     (if token_valid (cache w) now then (Returned (Inr (access_token (cache w))), w)
      else if refreshPromise (cache w) \<noteq> None then
        (Awaiting, w\<lparr>waiting := waiting w @ [Follower c]\<rparr>)
      else if missing_credentials env \<noteq> [] then
        (Returned (Inl (missing_error (missing_credentials env))), w)
      else
        (Awaiting,
         w\<lparr>token_requests := token_requests w @ [tokenUrl env],
           cache := (cache w)\<lparr>refreshPromise := Some (length (token_requests w))\<rparr>,
           waiting := waiting w @ [Leader c]\<rparr>))"

text \<open>The call with its return logged.\<close>

definition invoke :: "environment \<Rightarrow> nat \<Rightarrow> nat \<Rightarrow> world \<Rightarrow> call_result \<times> world" where
  "invoke env c now w =
     (case getZohoAccessToken_begin env c now w of
        (Returned r, w') \<Rightarrow> (Returned r, w'\<lparr>settled := settled w' @ [(c, r)]\<rparr>)
      | (Awaiting, w') \<Rightarrow> (Awaiting, w'))"

text \<open>
  Lines 113 to 120 after the \<^verbatim>\<open>await\<close>, and line 43: a follower returns or rethrows
  what the promise settled with; the leader does the same, clearing the cache first
  when the promise rejected.
\<close>

fun resume :: "js_error + jsval \<Rightarrow> world \<Rightarrow> waiter \<Rightarrow> world" where
  "resume r w (Follower c) = w\<lparr>settled := settled w @ [(c, r)]\<rparr>"
| "resume r w (Leader c) =
     (case r of
        Inr v \<Rightarrow> w\<lparr>settled := settled w @ [(c, r)]\<rparr>
      | Inl e \<Rightarrow>
          w\<lparr>cache := (cache w)\<lparr>access_token := JNull, expires_at := Some 0\<rparr>,
            settled := settled w @ [(c, r)]\<rparr>)"

text \<open>The fetch of the refresh in flight settles at time \<open>now\<close>: the refresh runs to
  its end, then every waiting call resumes. Without a refresh in flight there is no
  fetch to settle.\<close>

definition settle :: "(string \<Rightarrow> int option) \<Rightarrow> nat \<Rightarrow> fetch_outcome \<Rightarrow> world \<Rightarrow> world" where
  "settle str_to_number now outcome w =
     (if refreshPromise (cache w) = None then w
      else
        (case refresh_IIFE str_to_number now outcome (cache w) of
           (r, c') \<Rightarrow> foldl (resume r) (w\<lparr>cache := c', waiting := []\<rparr>) (waiting w)))"

datatype event = Call nat nat | Settle nat fetch_outcome

fun step :: "environment \<Rightarrow> (string \<Rightarrow> int option) \<Rightarrow> world \<Rightarrow> event \<Rightarrow> world" where
  "step env str_to_number w (Call c now) = snd (invoke env c now w)"
| "step env str_to_number w (Settle now outcome) = settle str_to_number now outcome w"

definition run :: "environment \<Rightarrow> (string \<Rightarrow> int option) \<Rightarrow> event list \<Rightarrow> world \<Rightarrow> world" where
  "run env str_to_number evs w = foldl (step env str_to_number) w evs"

subsection \<open>Predicates used to state the properties\<close>

text \<open>The cache holds \<^verbatim>\<open>null\<close> or a truthy token: so it starts, and lines 89, 103 and
  117 keep it so.\<close>

definition cache_inv :: "token_cache \<Rightarrow> bool" where
  "cache_inv c = (access_token c = JNull \<or> truthy (access_token c))"

text \<open>A configuration variable is absent or blank.\<close>

definition blank :: "string option \<Rightarrow> bool" where
  "blank v = (case v of None \<Rightarrow> True | Some s \<Rightarrow> list_all is_ws s)"

section \<open>The POST handler\<close>

record http_response =
  http_status :: nat
  json_body :: jsval

text \<open>Lines 355 to 370: the catch-all of the handler.\<close>

definition internal_error :: "environment \<Rightarrow> js_error \<Rightarrow> http_response" where
  "internal_error env e =
     \<lparr>http_status = 500,
      json_body = JObj
        [(''error'', JStr ''Internal server error. Please try again later.''),
         (''details'',
            if NODE_ENV env = Some ''development'' then JStr (error_message e) else JUndefined)]\<rparr>"

definition invalid_request :: http_response where
  "invalid_request =
     \<lparr>http_status = 400,
      json_body = JObj [(''error'', JStr ''Invalid request format. Expected { data: [...] }'')]\<rparr>"

fun is_array :: "jsval \<Rightarrow> bool" where
  "is_array (JArr xs) = True"
| "is_array v = False"

fun elements :: "jsval \<Rightarrow> jsval list" where
  "elements (JArr xs) = xs"
| "elements v = []"

text \<open>Line 221: \<^verbatim>\<open>!body.data || !Array.isArray(body.data) || body.data.length === 0\<close>.\<close>

definition bad_data :: "jsval \<Rightarrow> bool" where
  "bad_data d = (\<not> truthy d \<or> \<not> is_array d \<or> length (elements d) = 0)"

subsection \<open>The payload for the CRM\<close>

text \<open>\<^verbatim>\<open>s.split(",")\<close>: the pieces between commas; the empty string has one empty
  piece.\<close>

fun split_comma :: "string \<Rightarrow> string list" where
  "split_comma [] = [[]]"
| "split_comma (c # cs) =
     (if c = CHR '','' then [] # split_comma cs
      else (case split_comma cs of [] \<Rightarrow> [[c]] | p # ps \<Rightarrow> (c # p) # ps))"

text \<open>\<^verbatim>\<open>item.Name?.trim()\<close>: \<^verbatim>\<open>undefined\<close> on a nullish field, the trimmed string on a
  string, a \<^verbatim>\<open>TypeError\<close> on any other value (it has no \<^verbatim>\<open>trim\<close> method).\<close>

fun opt_trim :: "jsval \<Rightarrow> js_error + jsval" where
  "opt_trim JUndefined = Inr JUndefined"
| "opt_trim JNull = Inr JUndefined"
| "opt_trim (JStr s) = Inr (JStr (trim s))"
| "opt_trim v = Inl (TypeError ''trim is not a function'')"

text \<open>Line 268: \<^verbatim>\<open>typeof i === "string" ? i.trim() : i\<close>.\<close>

fun trim_if_string :: "jsval \<Rightarrow> jsval" where
  "trim_if_string (JStr s) = JStr (trim s)"
| "trim_if_string v = v"

text \<open>Lines 258 to 272: \<open>interestsArray\<close> from \<^verbatim>\<open>item.Interests\<close>.\<close>

definition interestsArray :: "(string \<Rightarrow> int option) \<Rightarrow> jsval \<Rightarrow> jsval list" where
  "interestsArray str_to_number interests =
     (if truthy interests then
        (case interests of
           JStr s \<Rightarrow>
             filter (\<lambda>i. js_gt0 str_to_number (opt_prop i ''length''))
               (map (\<lambda>i. JStr (trim i)) (split_comma s))
         | JArr xs \<Rightarrow>
             filter (\<lambda>i. truthy i \<and> js_gt0 str_to_number (opt_prop i ''length''))
               (map trim_if_string xs)
         | _ \<Rightarrow> [])
      else [])"

text \<open>Lines 249 to 278: one item of the payload.\<close>

definition payloadItem :: "(string \<Rightarrow> int option) \<Rightarrow> jsval \<Rightarrow> js_error + jsval" where
  "payloadItem str_to_number item =
     bind_err (get_prop item ''Name'') (\<lambda>name.
     bind_err (opt_trim name) (\<lambda>name'.
     bind_err (get_prop item ''Email'') (\<lambda>email.
     bind_err (opt_trim email) (\<lambda>email'.
     bind_err (get_prop item ''Interests'') (\<lambda>interests.
       Inr (JObj [(''Name'', name'), (''Email'', email'), (''Lead_Source'', JStr ''Website''),
                  (''Pick_Your_Interests'', JArr (interestsArray str_to_number interests))]))))))"

text \<open>\<^verbatim>\<open>body.data.map(...)\<close>: the first item that throws ends the map.\<close>

fun map_err :: "('a \<Rightarrow> js_error + 'b) \<Rightarrow> 'a list \<Rightarrow> js_error + 'b list" where
  "map_err f [] = Inr []"
| "map_err f (x # xs) =
     bind_err (f x) (\<lambda>y. bind_err (map_err f xs) (\<lambda>ys. Inr (y # ys)))"

definition build_payload :: "(string \<Rightarrow> int option) \<Rightarrow> jsval \<Rightarrow> js_error + jsval" where
  "build_payload str_to_number d =
     bind_err (map_err (payloadItem str_to_number) (elements d)) (\<lambda>items.
       Inr (JObj [(''data'', JArr items)]))"

subsection \<open>Reading the reply of the CRM\<close>

text \<open>\<^verbatim>\<open>x?.[0]\<close>\<close>

fun opt_index0 :: "jsval \<Rightarrow> jsval" where
  "opt_index0 (JArr xs) = (case xs of [] \<Rightarrow> JUndefined | x # _ \<Rightarrow> x)"
| "opt_index0 (JStr s) = (case s of [] \<Rightarrow> JUndefined | c # _ \<Rightarrow> JStr [c])"
| "opt_index0 (JObj kvs) = lookup kvs ''0''"
| "opt_index0 v = JUndefined"

text \<open>Lines 318 to 321.\<close>

definition isSuccess :: "jsval \<Rightarrow> jsval \<Rightarrow> jsval \<Rightarrow> bool" where
  "isSuccess errorCode errorStatus errorMessage =
     (errorCode = JStr ''SUCCESS'' \<or> errorStatus = JStr ''success'' \<or>
      (truthy errorMessage \<and> test_success (to_string errorMessage)))"

text \<open>Lines 312 to 354, on the parsed reply \<open>responseData\<close>; a thrown error goes to the
  catch-all.\<close>

definition respond :: "jsval \<Rightarrow> js_error + http_response" where
  "respond responseData =
     bind_err (get_prop responseData ''data'') (\<lambda>d.
       let responseItem = opt_index0 d;
           errorCode = opt_prop responseItem ''code'';
           errorStatus = opt_prop responseItem ''status'';
           errorMessage = js_or (opt_prop responseItem ''message'') (opt_prop responseData ''message'');
           errorDetails = opt_prop responseItem ''details''
       in
         if isSuccess errorCode errorStatus errorMessage then
           Inr \<lparr>http_status = 200,
                json_body = JObj
                  [(''success'', JBool True), (''data'', responseData),
                   (''zohoResponse'', responseData),
                   (''recordId'', opt_prop (opt_prop responseItem ''details'') ''id''),
                   (''message'', JStr ''Successfully subscribed to newsletter'')]\<rparr>
         else
           bind_err (mapZohoError errorCode errorMessage errorDetails) (\<lambda>errorMapping.
             Inr \<lparr>http_status = status errorMapping,
                  json_body = JObj
                    [(''error'', message errorMapping),
                     (''duplicateField'', duplicateField errorMapping),
                     (''zohoResponse'', responseData),
                     (''zohoErrorCode'', errorCode)]\<rparr>))"

text \<open>Lines 296 to 309 and the above: the response to a reply of the CRM.\<close>

definition handle_reply :: "environment \<Rightarrow> http_reply \<Rightarrow> http_response" where
  "handle_reply env reply =
     (case reply_body reply of
        Unparsable responseText \<Rightarrow>
          \<lparr>http_status = 500,
           json_body = JObj [(''error'', JStr ''Invalid response from Zoho API''),
                             (''details'', JStr (take 200 responseText))]\<rparr>
      | Parsed responseData \<Rightarrow>
          (case respond responseData of
             Inl e \<Rightarrow> internal_error env e
           | Inr resp \<Rightarrow> resp))"

subsection \<open>One request, handled without another request in between\<close>

text \<open>
  What the handler meets on its way: the outcome of \<^verbatim>\<open>request.json()\<close>, the clock at
  line 28, what the token fetch settles with and the clock at line 104 (read only
  when this call awaits a refresh), and what the CRM fetch settles with.
\<close>

record request_run =
  req_json :: "js_error + jsval"
  caller :: nat
  now_call :: nat
  token_fetch :: fetch_outcome
  now_install :: nat
  crm_fetch :: fetch_outcome

text \<open>\<^verbatim>\<open>await getZohoAccessToken()\<close>: the call, and the settlement it waits for.\<close>

definition getZohoAccessToken ::
  "environment \<Rightarrow> (string \<Rightarrow> int option) \<Rightarrow> request_run \<Rightarrow> world
     \<Rightarrow> (js_error + jsval) \<times> world" where
  "getZohoAccessToken env str_to_number rq w =
     (case invoke env (caller rq) (now_call rq) w of
        (Returned r, w') \<Rightarrow> (r, w')
      | (Awaiting, w') \<Rightarrow>
          (fst (refresh_IIFE str_to_number (now_install rq) (token_fetch rq) (cache w')),
           settle str_to_number (now_install rq) (token_fetch rq) w'))"

definition token_unavailable :: "js_error \<Rightarrow> http_response" where
  "token_unavailable tokenError =
     \<lparr>http_status = 401,
      json_body = JObj
        [(''error'', JStr ''Authentication failed. Unable to get access token.''),
         (''details'', JStr (error_message tokenError))]\<rparr>"

definition POST ::
  "environment \<Rightarrow> (string \<Rightarrow> int option) \<Rightarrow> request_run \<Rightarrow> world \<Rightarrow> http_response \<times> world" where
  "POST env str_to_number rq w =
     (case req_json rq of
        Inl e \<Rightarrow> (internal_error env e, w)
      | Inr body \<Rightarrow>
          (case get_prop body ''data'' of
             Inl e \<Rightarrow> (internal_error env e, w)
           | Inr d \<Rightarrow>
               if bad_data d then (invalid_request, w)
               else
                 (case getZohoAccessToken env str_to_number rq w of
                    (Inl tokenError, w1) \<Rightarrow> (token_unavailable tokenError, w1)
                  | (Inr accessToken, w1) \<Rightarrow>
                      (case build_payload str_to_number d of
                         Inl e \<Rightarrow> (internal_error env e, w1)
                       | Inr payload \<Rightarrow>
                           (let w2 = w1\<lparr>crm_requests := crm_requests w1 @
                                       [(''Zoho-oauthtoken '' @ to_string accessToken, payload)]\<rparr>
                            in case crm_fetch rq of
                                 Rejected e \<Rightarrow> (internal_error env e, w2)
                               | Replied reply \<Rightarrow> (handle_reply env reply, w2))))))"

section \<open>Invariant of the worlds the program reaches\<close>

fun waiter_id :: "waiter \<Rightarrow> nat" where
  "waiter_id (Leader c) = c"
| "waiter_id (Follower c) = c"

fun is_follower :: "waiter \<Rightarrow> bool" where
  "is_follower (Follower c) = True"
| "is_follower (Leader c) = False"

text \<open>The calls awaiting a promise are the call that created it, then followers.\<close>

definition leader_first :: "waiter list \<Rightarrow> bool" where
  "leader_first ws = (case ws of Leader c # rest \<Rightarrow> list_all is_follower rest | _ \<Rightarrow> False)"

text \<open>
  With the environment \<open>env\<close> fixed for the life of the process: the cached token is
  \<^verbatim>\<open>null\<close> or truthy; no call waits unless a refresh is in flight; a refresh in flight
  was begun with all credentials present, and its leader waits first.
\<close>

definition world_inv :: "environment \<Rightarrow> world \<Rightarrow> bool" where
  "world_inv env w =
     (cache_inv (cache w) \<and>
      (if refreshPromise (cache w) = None then waiting w = []
       else missing_credentials env = [] \<and> leader_first (waiting w)))"

text \<open>The calls of a list of callers, each with the clock it reads.\<close>

definition calls :: "(nat \<times> nat) list \<Rightarrow> event list" where
  "calls cts = map (\<lambda>(c, now). Call c now) cts"

text \<open>Of a list of callers with their clocks, met by a world with a refresh in flight:
  those that find the cached token not valid and join the waiting calls, and those that
  find it valid and are served from the cache.\<close>

definition joined :: "world \<Rightarrow> (nat \<times> nat) list \<Rightarrow> waiter list" where
  "joined w cts = map (\<lambda>(c, now). Follower c) (filter (\<lambda>(c, now). \<not> token_valid (cache w) now) cts)"

definition served :: "world \<Rightarrow> (nat \<times> nat) list \<Rightarrow> (nat \<times> (js_error + jsval)) list" where
  "served w cts =
     map (\<lambda>(c, now). (c, Inr (access_token (cache w))))
       (filter (\<lambda>(c, now). token_valid (cache w) now) cts)"

section \<open>Further predicates used to state the properties\<close>

fun is_str :: "jsval \<Rightarrow> bool" where
  "is_str (JStr s) = True"
| "is_str v = False"

text \<open>A string is trimmed: it neither begins nor ends with white space.\<close>

definition trimmed :: "string \<Rightarrow> bool" where
  "trimmed s = (s = [] \<or> (\<not> is_ws (hd s) \<and> \<not> is_ws (last s)))"


section \<open>Concrete inputs\<close>

text \<open>An environment with the three credentials and no base URL, and one whose client
  secret is blank.\<close>

definition env_complete :: environment where
  "env_complete =
     \<lparr>ZOHO_CRM_REFRESH_TOKEN = Some ''1000.abc'', ZOHO_CRM_CLIENT_ID = Some ''id 1'',
      ZOHO_CRM_CLIENT_SECRET = Some ''s3cret'', ZOHO_CRM_ACCOUNTS_DOMAIN = None,
      NODE_ENV = Some ''production''\<rparr>"

definition env_no_secret :: environment where
  "env_no_secret = env_complete\<lparr>ZOHO_CRM_CLIENT_SECRET := Some ''  ''\<rparr>"

text \<open>An instance of the parameter \<open>str_to_number\<close>, for inputs on which the program
  reads no string as a number.\<close>

definition no_numeric_strings :: "string \<Rightarrow> int option" where
  "no_numeric_strings s = None"

text \<open>Replies of the identity provider: a token that lives \<open>n\<close> seconds, and a
  refusal.\<close>

definition token_reply :: "int \<Rightarrow> fetch_outcome" where
  "token_reply n =
     Replied \<lparr>ok = True,
              reply_body = Parsed (JObj [(''access_token'', JStr ''tok''), (''expires_in'', JNum n)])\<rparr>"

definition token_refused :: fetch_outcome where
  "token_refused =
     Replied \<lparr>ok = False, reply_body = Parsed (JObj [(''error'', JStr ''invalid_code'')])\<rparr>"

text \<open>A world whose cache holds a token that expires at \<open>e\<close>.\<close>

definition world_at :: "int \<Rightarrow> world" where
  "world_at e =
     initial_world\<lparr>cache := \<lparr>access_token = JStr ''tok'', expires_at = Some e,
                              refreshPromise = None\<rparr>\<rparr>"

text \<open>The world after one caller has begun a refresh at clock 0.\<close>

definition world_refreshing :: world where
  "world_refreshing = run env_complete no_numeric_strings (calls [(1, 0)]) initial_world"

text \<open>Request bodies, and what the CRM may reply.\<close>

definition jane :: jsval where
  "jane = JObj [(''data'', JArr [JObj [(''Name'', JStr '' Jane Doe''), (''Email'', JStr ''jane@x.com''),
                                      (''Interests'', JStr ''Corporate Advisory, Others,,Others '')]])]"

definition run_with :: "js_error + jsval \<Rightarrow> fetch_outcome \<Rightarrow> request_run" where
  "run_with b crm =
     \<lparr>req_json = b, caller = 1, now_call = 1000, token_fetch = token_reply 3600,
      now_install = 1200, crm_fetch = crm\<rparr>"

definition crm_reply :: "jsval \<Rightarrow> fetch_outcome" where
  "crm_reply v = Replied \<lparr>ok = True, reply_body = Parsed v\<rparr>"

definition crm_item :: "string \<Rightarrow> string \<Rightarrow> jsval" where
  "crm_item c m =
     JObj [(''data'', JArr [JObj [(''code'', JStr c), (''message'', JStr m),
                                  (''details'', JObj [(''id'', JStr ''42'')]), (''status'', JStr ''error'')]])]"

section \<open>Properties of the string operations\<close>

lemma starts_with_iff: "starts_with s pat \<longleftrightarrow> (\<exists>post. s = pat @ post)"
proof
  assume "starts_with s pat"
  then have "s = pat @ drop (length pat) s"
    by (metis append_take_drop_id starts_with_def)
  then show "\<exists>post. s = pat @ post" ..
next
  assume "\<exists>post. s = pat @ post"
  then show "starts_with s pat" by (auto simp: starts_with_def)
qed

lemma str_includes_iff: "str_includes s pat \<longleftrightarrow> (\<exists>pre post. s = pre @ pat @ post)"
proof (induction s)
  case Nil
  show ?case by auto
next
  case (Cons c cs)
  show ?case
  proof
    assume "str_includes (c # cs) pat"
    then consider "starts_with (c # cs) pat" | "str_includes cs pat" by auto
    then show "\<exists>pre post. c # cs = pre @ pat @ post"
    proof cases
      case 1
      then obtain post where "c # cs = pat @ post" by (auto simp: starts_with_iff)
      then have "c # cs = [] @ pat @ post" by simp
      then show ?thesis by blast
    next
      case 2
      with Cons obtain pre post where "cs = pre @ pat @ post" by blast
      then have "c # cs = (c # pre) @ pat @ post" by simp
      then show ?thesis by blast
    qed
  next
    assume "\<exists>pre post. c # cs = pre @ pat @ post"
    then obtain pre post where e: "c # cs = pre @ pat @ post" by blast
    show "str_includes (c # cs) pat"
    proof (cases pre)
      case Nil
      with e have "starts_with (c # cs) pat" by (auto simp: starts_with_iff)
      then show ?thesis by simp
    next
      case (Cons a pre')
      with e have "cs = pre' @ pat @ post" by simp
      with Cons.IH have "str_includes cs pat" by blast
      then show ?thesis by simp
    qed
  qed
qed

lemma trim_decomposition:
  "\<exists>pre post. s = pre @ trim s @ post \<and> list_all is_ws pre \<and> list_all is_ws post"
proof -
  let ?ys = "dropWhile is_ws s"
  have 1: "s = takeWhile is_ws s @ ?ys" by simp
  have 2: "rev ?ys = takeWhile is_ws (rev ?ys) @ dropWhile is_ws (rev ?ys)" by simp
  have "?ys = rev (rev ?ys)" by simp
  also have "\<dots> = rev (dropWhile is_ws (rev ?ys)) @ rev (takeWhile is_ws (rev ?ys))"
    by (subst 2) (simp only: rev_append)
  finally have 3: "?ys = trim s @ rev (takeWhile is_ws (rev ?ys))" by (simp add: trim_def)
  have "s = takeWhile is_ws s @ trim s @ rev (takeWhile is_ws (rev ?ys))"
    using 1 3 by metis
  moreover have "list_all is_ws (takeWhile is_ws s)"
    by (simp add: list_all_iff) (meson set_takeWhileD)
  moreover have "list_all is_ws (rev (takeWhile is_ws (rev ?ys)))"
    by (simp add: list_all_iff) (meson set_takeWhileD)
  ultimately show ?thesis by blast
qed

section \<open>Properties of the classifier\<close>











section \<open>Properties of the token cache\<close>

subsection \<open>Blank strings and missing credentials\<close>

lemma dropWhile_all_iff: "(\<forall>x\<in>set (dropWhile P xs). P x) \<longleftrightarrow> (\<forall>x\<in>set xs. P x)"
proof
  assume a: "\<forall>x\<in>set (dropWhile P xs). P x"
  have "dropWhile P xs = []"
  proof (rule ccontr)
    assume n: "dropWhile P xs \<noteq> []"
    then have "\<not> P (hd (dropWhile P xs))" by (rule hd_dropWhile)
    moreover from n have "hd (dropWhile P xs) \<in> set (dropWhile P xs)" by simp
    ultimately show False using a by blast
  qed
  then show "\<forall>x\<in>set xs. P x" by (simp add: dropWhile_eq_Nil_conv)
next
  assume "\<forall>x\<in>set xs. P x"
  then show "\<forall>x\<in>set (dropWhile P xs). P x" by (meson set_dropWhileD)
qed

lemma trim_empty_iff: "trim s = [] \<longleftrightarrow> list_all is_ws s"
  by (simp add: trim_def list_all_iff dropWhile_eq_Nil_conv dropWhile_all_iff)

lemma env_trim_falsy: "\<not> truthy (env_trim v) \<longleftrightarrow> blank v"
  by (cases v) (simp_all add: env_trim_def blank_def trim_empty_iff)

lemma missing_credentials_blank:
  "missing_credentials env =
     (if blank (ZOHO_CRM_REFRESH_TOKEN env) then [''ZOHO_CRM_REFRESH_TOKEN''] else []) @
     (if blank (ZOHO_CRM_CLIENT_ID env) then [''ZOHO_CRM_CLIENT_ID''] else []) @
     (if blank (ZOHO_CRM_CLIENT_SECRET env) then [''ZOHO_CRM_CLIENT_SECRET''] else [])"
  unfolding missing_credentials_def Let_def env_trim_falsy ..

lemma missing_credentials_Nil_iff:
  "missing_credentials env = [] \<longleftrightarrow>
     \<not> blank (ZOHO_CRM_REFRESH_TOKEN env) \<and> \<not> blank (ZOHO_CRM_CLIENT_ID env) \<and>
     \<not> blank (ZOHO_CRM_CLIENT_SECRET env)"
  by (simp add: missing_credentials_blank)

lemma accountsDomain_default:
  "blank (ZOHO_CRM_ACCOUNTS_DOMAIN env) \<Longrightarrow> accountsDomain env = JStr ''https://accounts.zoho.in''"
  using env_trim_falsy [of "ZOHO_CRM_ACCOUNTS_DOMAIN env"]
  by (simp add: accountsDomain_def js_or_def)

subsection \<open>The validity check\<close>

lemma token_valid_iff:
  assumes "cache_inv c"
  shows "token_valid c now \<longleftrightarrow>
         access_token c \<noteq> JNull \<and> (\<exists>e. expires_at c = Some e \<and> int now < e - 30000)"
  using assms by (cases "expires_at c") (auto simp: token_valid_def cache_inv_def)

lemma begin_returns_cached_iff:
  "getZohoAccessToken_begin env c now w = (Returned (Inr (access_token (cache w))), w)
     \<longleftrightarrow> token_valid (cache w) now"
  by (auto simp: getZohoAccessToken_begin_def)

lemma begin_returns_any_iff:
  "(\<exists>v w'. getZohoAccessToken_begin env c now w = (Returned (Inr v), w'))
     \<longleftrightarrow> token_valid (cache w) now"
  by (auto simp: getZohoAccessToken_begin_def)

text \<open>
  C2. In a cache that holds \<^verbatim>\<open>null\<close> or a truthy token (every cache the program
  reaches), the call returns the cached token, leaving the world as it is, if and only
  if the token is present and the clock is strictly below the stored expiry minus
  30000 ms. With the expiry 10 s ahead the token is not returned, and a call that finds
  no refresh in flight and the credentials present sends the refresh request; with the
  expiry 31 s ahead and a token present the call returns it and nothing else changes.
\<close>

theorem cached_token_validity:
  assumes "cache_inv (cache w)"
  shows
   "(getZohoAccessToken_begin env c now w = (Returned (Inr (access_token (cache w))), w)
       \<longleftrightarrow> access_token (cache w) \<noteq> JNull \<and>
           (\<exists>e. expires_at (cache w) = Some e \<and> int now < e - 30000))
    \<and> ((\<exists>v w'. getZohoAccessToken_begin env c now w = (Returned (Inr v), w'))
       \<longleftrightarrow> access_token (cache w) \<noteq> JNull \<and>
           (\<exists>e. expires_at (cache w) = Some e \<and> int now < e - 30000))
    \<and> (expires_at (cache w) = Some (int now + 10000) \<longrightarrow>
         \<not> token_valid (cache w) now \<and>
         (\<forall>v w'. getZohoAccessToken_begin env c now w \<noteq> (Returned (Inr v), w')) \<and>
         (refreshPromise (cache w) = None \<and> missing_credentials env = [] \<longrightarrow>
            token_requests (snd (getZohoAccessToken_begin env c now w))
              = token_requests w @ [tokenUrl env]))
    \<and> (expires_at (cache w) = Some (int now + 31000) \<and> access_token (cache w) \<noteq> JNull \<longrightarrow>
         token_valid (cache w) now \<and>
         getZohoAccessToken_begin env c now w = (Returned (Inr (access_token (cache w))), w))"
proof -
  note v = token_valid_iff [OF assms, of now]
  have 1: "getZohoAccessToken_begin env c now w = (Returned (Inr (access_token (cache w))), w)
       \<longleftrightarrow> access_token (cache w) \<noteq> JNull \<and>
           (\<exists>e. expires_at (cache w) = Some e \<and> int now < e - 30000)"
    using v begin_returns_cached_iff by blast
  have 2: "(\<exists>v w'. getZohoAccessToken_begin env c now w = (Returned (Inr v), w'))
       \<longleftrightarrow> access_token (cache w) \<noteq> JNull \<and>
           (\<exists>e. expires_at (cache w) = Some e \<and> int now < e - 30000)"
    using v begin_returns_any_iff by blast
  have 3: "\<not> token_valid (cache w) now \<and>
         (\<forall>v w'. getZohoAccessToken_begin env c now w \<noteq> (Returned (Inr v), w')) \<and>
         (refreshPromise (cache w) = None \<and> missing_credentials env = [] \<longrightarrow>
            token_requests (snd (getZohoAccessToken_begin env c now w))
              = token_requests w @ [tokenUrl env])"
    if "expires_at (cache w) = Some (int now + 10000)"
  proof -
    from that have nv: "\<not> token_valid (cache w) now" by (simp add: token_valid_def)
    with begin_returns_any_iff [of env c now w]
    have "\<forall>v w'. getZohoAccessToken_begin env c now w \<noteq> (Returned (Inr v), w')" by blast
    with nv show ?thesis by (simp add: getZohoAccessToken_begin_def)
  qed
  have 4: "token_valid (cache w) now \<and>
         getZohoAccessToken_begin env c now w = (Returned (Inr (access_token (cache w))), w)"
    if "expires_at (cache w) = Some (int now + 31000) \<and> access_token (cache w) \<noteq> JNull"
  proof -
    from that v have "token_valid (cache w) now" by simp
    then show ?thesis using begin_returns_cached_iff by blast
  qed
  from 1 2 3 4 show ?thesis by blast
qed

lemma tokenUrl_env_complete: "tokenUrl env_complete =
   ''https://accounts.zoho.in/oauth/v2/token?refresh_token=1000.abc&client_id=id%201&client_secret=s3cret&grant_type=refresh_token''"
  by code_simp

lemma missing_env_complete: "missing_credentials env_complete = []"
  by code_simp

lemma missing_env_no_secret: "missing_credentials env_no_secret = [''ZOHO_CRM_CLIENT_SECRET'']"
  by code_simp

theorem cached_token_validity_witness:
  "cache_inv (cache (world_at 131000))
   \<and> getZohoAccessToken_begin env_complete 7 100000 (world_at 131000)
       = (Returned (Inr (JStr ''tok'')), world_at 131000)
   \<and> cache_inv (cache (world_at 110000))
   \<and> token_requests (snd (getZohoAccessToken_begin env_complete 7 100000 (world_at 110000)))
       = [tokenUrl env_complete]"
proof -
  have i: "cache_inv (cache (world_at 131000))" "cache_inv (cache (world_at 110000))"
    by (simp_all add: world_at_def cache_inv_def)
  have a: "expires_at (cache (world_at 131000)) = Some (int 100000 + 31000)
           \<and> access_token (cache (world_at 131000)) \<noteq> JNull"
    by (simp add: world_at_def)
  have b: "expires_at (cache (world_at 110000)) = Some (int 100000 + 10000)"
          "refreshPromise (cache (world_at 110000)) = None \<and> missing_credentials env_complete = []"
          "token_requests (world_at 110000) = []"
    by (simp_all add: world_at_def missing_env_complete initial_world_def)
  have t: "access_token (cache (world_at 131000)) = JStr ''tok''" by (simp add: world_at_def)
  from cached_token_validity [OF i(1), of env_complete 7 100000] a t
  have 1: "getZohoAccessToken_begin env_complete 7 100000 (world_at 131000)
       = (Returned (Inr (JStr ''tok'')), world_at 131000)" by simp
  from cached_token_validity [OF i(2), of env_complete 7 100000] b
  have 2: "token_requests (snd (getZohoAccessToken_begin env_complete 7 100000 (world_at 110000)))
       = [tokenUrl env_complete]" by simp
  from i 1 2 show ?thesis by blast
qed

subsection \<open>Installing the credential\<close>

lemma refresh_try_success:
  assumes "refresh_try tn now outcome c = (Inr tok, c')"
  shows "\<exists>reply tokenData. outcome = Replied reply \<and> ok reply \<and>
           reply_body reply = Parsed tokenData \<and>
           get_prop tokenData ''access_token'' = Inr tok \<and> truthy tok \<and>
           c' = install_token tn now tok (opt_prop tokenData ''expires_in'') c"
  using assms
  by (auto simp: refresh_try_def split: fetch_outcome.splits parsed.splits if_splits sum.splits)

lemma refresh_try_success_conv:
  assumes "ok reply" and "reply_body reply = Parsed tokenData"
      and "get_prop tokenData ''access_token'' = Inr tok" and "truthy tok"
  shows "refresh_try tn now (Replied reply) c =
           (Inr tok, install_token tn now tok (opt_prop tokenData ''expires_in'') c)"
  using assms by (simp add: refresh_try_def)

lemma install_token_fields:
  "access_token (install_token tn now tok ei c) = tok"
  "refreshPromise (install_token tn now tok ei c) = refreshPromise c"
  "\<not> truthy ei \<Longrightarrow> expires_at (install_token tn now tok ei c) = Some (int now + 3600 * 1000)"
  "ei = JNum n \<Longrightarrow> n \<noteq> 0 \<Longrightarrow> expires_at (install_token tn now tok ei c) = Some (int now + n * 1000)"
  by (simp_all add: install_token_def js_or_def Let_def)




section \<open>Calls, settlements and their interleavings\<close>

lemma token_valid_refreshPromise [simp]:
  "token_valid (c\<lparr>refreshPromise := p\<rparr>) now = token_valid c now"
  by (simp add: token_valid_def)

lemma cache_inv_refreshPromise [simp]:
  "cache_inv (c\<lparr>refreshPromise := p\<rparr>) = cache_inv c"
  by (simp add: cache_inv_def)

subsection \<open>What one call does\<close>

lemma invoke_valid:
  "token_valid (cache w) now \<Longrightarrow>
   invoke env c now w =
     (Returned (Inr (access_token (cache w))),
      w\<lparr>settled := settled w @ [(c, Inr (access_token (cache w)))]\<rparr>)"
  by (simp add: invoke_def getZohoAccessToken_begin_def)

lemma invoke_follow:
  "\<not> token_valid (cache w) now \<Longrightarrow> refreshPromise (cache w) \<noteq> None \<Longrightarrow>
   invoke env c now w = (Awaiting, w\<lparr>waiting := waiting w @ [Follower c]\<rparr>)"
  by (simp add: invoke_def getZohoAccessToken_begin_def)

lemma invoke_missing:
  "\<not> token_valid (cache w) now \<Longrightarrow> refreshPromise (cache w) = None \<Longrightarrow>
   missing_credentials env \<noteq> [] \<Longrightarrow>
   invoke env c now w =
     (Returned (Inl (missing_error (missing_credentials env))),
      w\<lparr>settled := settled w @ [(c, Inl (missing_error (missing_credentials env)))]\<rparr>)"
  by (simp add: invoke_def getZohoAccessToken_begin_def)

lemma invoke_lead:
  "\<not> token_valid (cache w) now \<Longrightarrow> refreshPromise (cache w) = None \<Longrightarrow>
   missing_credentials env = [] \<Longrightarrow>
   invoke env c now w =
     (Awaiting,
      w\<lparr>token_requests := token_requests w @ [tokenUrl env],
        cache := (cache w)\<lparr>refreshPromise := Some (length (token_requests w))\<rparr>,
        waiting := waiting w @ [Leader c]\<rparr>)"
  by (simp add: invoke_def getZohoAccessToken_begin_def)

subsection \<open>Resuming the waiting calls\<close>

lemma foldl_resume_settled:
  "settled (foldl (resume r) w ws) = settled w @ map (\<lambda>x. (waiter_id x, r)) ws"
proof (induction ws arbitrary: w)
  case Nil
  show ?case by simp
next
  case (Cons x xs)
  show ?case by (cases x) (simp_all add: Cons.IH split: sum.splits)
qed

lemma resume_other_fields:
  "token_requests (resume r w x) = token_requests w"
  "waiting (resume r w x) = waiting w"
  "crm_requests (resume r w x) = crm_requests w"
  "refreshPromise (cache (resume r w x)) = refreshPromise (cache w)"
  by (cases x; simp split: sum.splits)+

lemma foldl_resume_other_fields:
  "token_requests (foldl (resume r) w ws) = token_requests w"
  "waiting (foldl (resume r) w ws) = waiting w"
  "crm_requests (foldl (resume r) w ws) = crm_requests w"
  "refreshPromise (cache (foldl (resume r) w ws)) = refreshPromise (cache w)"
  by (induction ws arbitrary: w) (simp_all add: resume_other_fields)

lemma foldl_resume_cache_success:
  "cache (foldl (resume (Inr v)) w ws) = cache w"
proof (induction ws arbitrary: w)
  case Nil
  show ?case by simp
next
  case (Cons x xs)
  show ?case by (cases x) (simp_all add: Cons.IH)
qed

lemma foldl_resume_followers:
  "list_all is_follower ws \<Longrightarrow> cache (foldl (resume r) w ws) = cache w"
proof (induction ws arbitrary: w)
  case Nil
  show ?case by simp
next
  case (Cons x xs)
  then show ?case by (cases x) simp_all
qed

lemma foldl_resume_cache_failure:
  assumes "leader_first ws"
  shows "cache (foldl (resume (Inl e)) w ws) = (cache w)\<lparr>access_token := JNull, expires_at := Some 0\<rparr>"
proof -
  from assms obtain c rest where ws: "ws = Leader c # rest" "list_all is_follower rest"
    by (auto simp: leader_first_def split: list.splits waiter.splits)
  then show ?thesis by (simp add: foldl_resume_followers)
qed

subsection \<open>What a settlement does\<close>

lemma refresh_try_refreshPromise:
  "refreshPromise (snd (refresh_try tn now outcome c)) = refreshPromise c"
  by (simp add: refresh_try_def install_token_def Let_def
           split: fetch_outcome.splits parsed.splits sum.splits)

lemma refresh_try_result_any_cache:
  "fst (refresh_try tn now outcome c) = fst (refresh_try tn now outcome c0)"
  by (simp add: refresh_try_def split: fetch_outcome.splits parsed.splits sum.splits)

lemma refresh_try_failure_cache:
  "fst (refresh_try tn now outcome c) = Inl e \<Longrightarrow> snd (refresh_try tn now outcome c) = c"
  by (simp add: refresh_try_def split: fetch_outcome.splits parsed.splits sum.splits if_splits)

lemma refresh_IIFE_fst: "fst (refresh_IIFE tn now outcome c) = fst (refresh_try tn now outcome c)"
  by (simp add: refresh_IIFE_def split: prod.splits)

lemma refresh_IIFE_released: "refreshPromise (snd (refresh_IIFE tn now outcome c)) = None"
  by (simp add: refresh_IIFE_def split: prod.splits)

lemma refresh_IIFE_cache_inv:
  "cache_inv c \<Longrightarrow> cache_inv (snd (refresh_IIFE tn now outcome c))"
  by (auto simp: refresh_IIFE_def refresh_try_def install_token_def cache_inv_def Let_def
           split: prod.splits fetch_outcome.splits parsed.splits sum.splits if_splits)

lemma settle_eq:
  assumes "refreshPromise (cache w) \<noteq> None"
  shows "settle tn now outcome w =
           foldl (resume (fst (refresh_IIFE tn now outcome (cache w))))
             (w\<lparr>cache := snd (refresh_IIFE tn now outcome (cache w)), waiting := []\<rparr>) (waiting w)"
  using assms by (cases "refreshPromise (cache w)") (simp_all add: settle_def split: prod.splits)

lemma settle_fields:
  assumes "refreshPromise (cache w) \<noteq> None"
  shows "refreshPromise (cache (settle tn now outcome w)) = None"
    and "waiting (settle tn now outcome w) = []"
    and "token_requests (settle tn now outcome w) = token_requests w"
    and "crm_requests (settle tn now outcome w) = crm_requests w"
    and "settled (settle tn now outcome w) =
           settled w @ map (\<lambda>x. (waiter_id x, fst (refresh_IIFE tn now outcome (cache w)))) (waiting w)"
  by (simp_all add: settle_eq [OF assms] foldl_resume_other_fields foldl_resume_settled
        refresh_IIFE_released)

lemma settle_cache_success:
  assumes "refreshPromise (cache w) \<noteq> None"
      and "fst (refresh_IIFE tn now outcome (cache w)) = Inr v"
  shows "cache (settle tn now outcome w) = snd (refresh_IIFE tn now outcome (cache w))"
  by (simp add: settle_eq [OF assms(1)] assms(2) foldl_resume_cache_success)

lemma settle_cache_failure:
  assumes "refreshPromise (cache w) \<noteq> None" and "leader_first (waiting w)"
      and "fst (refresh_IIFE tn now outcome (cache w)) = Inl e"
  shows "cache (settle tn now outcome w) =
           \<lparr>access_token = JNull, expires_at = Some 0, refreshPromise = None\<rparr>"
proof -
  have "cache (settle tn now outcome w) =
     (snd (refresh_IIFE tn now outcome (cache w)))\<lparr>access_token := JNull, expires_at := Some 0\<rparr>"
    by (simp add: settle_eq [OF assms(1)] assms(3) foldl_resume_cache_failure [OF assms(2)])
  moreover have "refreshPromise (snd (refresh_IIFE tn now outcome (cache w))) = None"
    by (rule refresh_IIFE_released)
  ultimately show ?thesis by simp
qed

subsection \<open>The invariant is kept\<close>

lemma leader_first_snoc: "leader_first ws \<Longrightarrow> leader_first (ws @ [Follower c])"
  by (auto simp: leader_first_def split: list.splits waiter.splits)

lemma initial_world_inv: "world_inv env initial_world"
  by (simp add: world_inv_def initial_world_def initial_cache_def cache_inv_def)

lemma invoke_world_inv:
  assumes "world_inv env w"
  shows "world_inv env (snd (invoke env c now w))"
proof (cases "token_valid (cache w) now")
  case True
  with assms show ?thesis by (simp add: invoke_valid world_inv_def)
next
  case nv: False
  show ?thesis
  proof (cases "refreshPromise (cache w) = None")
    case False
    with nv assms show ?thesis
      by (simp add: invoke_follow world_inv_def leader_first_snoc)
  next
    case idle: True
    show ?thesis
    proof (cases "missing_credentials env = []")
      case True
      with nv idle assms show ?thesis
        by (simp add: invoke_lead world_inv_def leader_first_def)
    next
      case False
      with nv idle assms show ?thesis
        by (simp add: invoke_missing world_inv_def)
    qed
  qed
qed

lemma settle_world_inv:
  assumes "world_inv env w"
  shows "world_inv env (settle tn now outcome w)"
proof (cases "refreshPromise (cache w) = None")
  case True
  with assms show ?thesis by (simp add: settle_def)
next
  case False
  from assms False have lf: "leader_first (waiting w)" and ci: "cache_inv (cache w)"
    by (simp_all add: world_inv_def)
  have "cache_inv (cache (settle tn now outcome w))"
  proof (cases "fst (refresh_IIFE tn now outcome (cache w))")
    case (Inl e)
    from settle_cache_failure [OF False lf Inl] show ?thesis by (simp add: cache_inv_def)
  next
    case (Inr v)
    from settle_cache_success [OF False Inr] refresh_IIFE_cache_inv [OF ci]
    show ?thesis by simp
  qed
  with settle_fields(1,2) [OF False] show ?thesis by (simp add: world_inv_def)
qed

lemma step_world_inv: "world_inv env w \<Longrightarrow> world_inv env (step env tn w ev)"
  by (cases ev) (simp_all add: invoke_world_inv settle_world_inv)

lemma run_world_inv: "world_inv env w \<Longrightarrow> world_inv env (run env tn evs w)"
  unfolding run_def by (induction evs arbitrary: w) (simp_all add: step_world_inv)

lemma run_append: "run env tn (evs @ evs') w = run env tn evs' (run env tn evs w)"
  by (simp add: run_def)

lemma run_Cons: "run env tn (ev # evs) w = run env tn evs (step env tn w ev)"
  by (simp add: run_def)

lemma run_Nil: "run env tn [] w = w"
  by (simp add: run_def)

subsection \<open>Calls while a refresh is in flight\<close>

lemma run_calls_pending:
  assumes "refreshPromise (cache w) \<noteq> None"
  shows "run env tn (calls cts) w =
           w\<lparr>waiting := waiting w @ joined w cts, settled := settled w @ served w cts\<rparr>"
  using assms
proof (induction cts arbitrary: w)
  case Nil
  show ?case by (simp add: calls_def run_Nil joined_def served_def)
next
  case (Cons ct cts)
  obtain c now where ct: "ct = (c, now)" by (cases ct)
  show ?case
  proof (cases "token_valid (cache w) now")
    case True
    let ?w1 = "w\<lparr>settled := settled w @ [(c, Inr (access_token (cache w)))]\<rparr>"
    have s: "step env tn w (Call c now) = ?w1" using True by (simp add: invoke_valid)
    have p: "refreshPromise (cache ?w1) \<noteq> None" using Cons.prems by simp
    have "run env tn (calls (ct # cts)) w = run env tn (calls cts) ?w1"
      using s by (simp add: ct calls_def run_Cons)
    also have "\<dots> = ?w1\<lparr>waiting := waiting ?w1 @ joined ?w1 cts,
                         settled := settled ?w1 @ served ?w1 cts\<rparr>"
      by (rule Cons.IH [OF p])
    also have "\<dots> = w\<lparr>waiting := waiting w @ joined w (ct # cts),
                       settled := settled w @ served w (ct # cts)\<rparr>"
      using True by (simp add: ct joined_def served_def)
    finally show ?thesis .
  next
    case False
    let ?w1 = "w\<lparr>waiting := waiting w @ [Follower c]\<rparr>"
    have s: "step env tn w (Call c now) = ?w1"
      using False Cons.prems by (simp add: invoke_follow)
    have p: "refreshPromise (cache ?w1) \<noteq> None" using Cons.prems by simp
    have "run env tn (calls (ct # cts)) w = run env tn (calls cts) ?w1"
      using s by (simp add: ct calls_def run_Cons)
    also have "\<dots> = ?w1\<lparr>waiting := waiting ?w1 @ joined ?w1 cts,
                         settled := settled ?w1 @ served ?w1 cts\<rparr>"
      by (rule Cons.IH [OF p])
    also have "\<dots> = w\<lparr>waiting := waiting w @ joined w (ct # cts),
                       settled := settled w @ served w (ct # cts)\<rparr>"
      using False by (simp add: ct joined_def served_def)
    finally show ?thesis .
  qed
qed

lemma joined_all_invalid:
  "\<forall>(c, now) \<in> set cts. \<not> token_valid (cache w) now \<Longrightarrow>
   joined w cts = map (\<lambda>(c, now). Follower c) cts \<and> served w cts = []"
  by (induction cts) (auto simp: joined_def served_def)

subsection \<open>Single flight\<close>

lemma run_calls_idle:
  assumes inv: "world_inv env w" and idle: "refreshPromise (cache w) = None"
      and cfg: "missing_credentials env = []"
      and invalid: "\<forall>(c, now) \<in> set ((c1, t1) # cts). \<not> token_valid (cache w) now"
  shows "run env tn (calls ((c1, t1) # cts)) w =
           w\<lparr>token_requests := token_requests w @ [tokenUrl env],
             cache := (cache w)\<lparr>refreshPromise := Some (length (token_requests w))\<rparr>,
             waiting := Leader c1 # map (\<lambda>(c, now). Follower c) cts\<rparr>"
proof -
  let ?w1 = "w\<lparr>token_requests := token_requests w @ [tokenUrl env],
             cache := (cache w)\<lparr>refreshPromise := Some (length (token_requests w))\<rparr>,
             waiting := waiting w @ [Leader c1]\<rparr>"
  from inv idle have e: "waiting w = []" by (simp add: world_inv_def)
  from invalid have nv: "\<not> token_valid (cache w) t1" by simp
  have s: "step env tn w (Call c1 t1) = ?w1"
    using nv idle cfg by (simp add: invoke_lead)
  have p: "refreshPromise (cache ?w1) \<noteq> None" by simp
  from invalid have "\<forall>(c, now) \<in> set cts. \<not> token_valid (cache ?w1) now" by auto
  then have j: "joined ?w1 cts = map (\<lambda>(c, now). Follower c) cts" "served ?w1 cts = []"
    using joined_all_invalid by blast+
  have "run env tn (calls ((c1, t1) # cts)) w = run env tn (calls cts) ?w1"
    using s by (simp add: calls_def run_Cons)
  also have "\<dots> = ?w1\<lparr>waiting := waiting ?w1 @ joined ?w1 cts,
                       settled := settled ?w1 @ served ?w1 cts\<rparr>"
    by (rule run_calls_pending [OF p])
  also have "\<dots> = w\<lparr>token_requests := token_requests w @ [tokenUrl env],
             cache := (cache w)\<lparr>refreshPromise := Some (length (token_requests w))\<rparr>,
             waiting := Leader c1 # map (\<lambda>(c, now). Follower c) cts\<rparr>"
    unfolding j using e by simp
  finally show ?thesis .
qed

lemma refresh_IIFE_result: 
  "fst (refresh_IIFE tn now outcome c) = fst (refresh_try tn now outcome c0)"
  using refresh_try_result_any_cache [of tn now outcome c c0] by (simp add: refresh_IIFE_fst)

lemma map_waiter_followers:
  "map (\<lambda>x. (waiter_id x, r)) (map (\<lambda>(c, now). Follower c) cts) = map (\<lambda>(c, now). (c, r)) cts"
  by (induction cts) auto

lemma world_refreshing_eq:
  "world_refreshing =
     \<lparr>cache = \<lparr>access_token = JNull, expires_at = Some 0, refreshPromise = Some 0\<rparr>,
      token_requests = [tokenUrl env_complete], waiting = [Leader 1], settled = [],
      crm_requests = []\<rparr>"
  by (simp add: world_refreshing_def run_def calls_def invoke_def getZohoAccessToken_begin_def
        initial_world_def initial_cache_def token_valid_def missing_env_complete)

lemma world_refreshing_inv: "world_inv env_complete world_refreshing"
  unfolding world_refreshing_def by (rule run_world_inv [OF initial_world_inv])

lemma token_reply_result:
  "fst (refresh_try tn t (token_reply n) c) = Inr (JStr ''tok'')"
  by (simp add: refresh_try_def token_reply_def lookup_def)

lemma token_refused_result:
  "fst (refresh_try tn t token_refused c) = Inl (Error ''Failed to refresh Zoho token: invalid_code'')"
  by (simp add: refresh_try_def token_refused_def token_failure_def token_errorMsg_def
        bind_err_def lookup_def)


text \<open>
  C1, as the claim states it, fails when a credential is missing: two callers call
  while the cache holds no valid token, and no request at all reaches the identity
  provider; each caller gets the configuration error, not a credential.
\<close>

theorem single_flight_counterexample:
  "\<not> token_valid (cache initial_world) 0
   \<and> refreshPromise (cache initial_world) = None
   \<and> token_requests
        (run env_no_secret no_numeric_strings
           (calls [(1, 0), (2, 0)] @ [Settle 5 (token_reply 3600)]) initial_world) = []
   \<and> settled
        (run env_no_secret no_numeric_strings
           (calls [(1, 0), (2, 0)] @ [Settle 5 (token_reply 3600)]) initial_world)
       = [(1, Inl (missing_error [''ZOHO_CRM_CLIENT_SECRET''])),
          (2, Inl (missing_error [''ZOHO_CRM_CLIENT_SECRET'']))]"
  by (simp add: run_def calls_def invoke_def getZohoAccessToken_begin_def settle_def
        initial_world_def initial_cache_def token_valid_def missing_env_no_secret)


text \<open>
  C1, amended. In a world the program reaches, let callers call one after another at
  clocks at which the cached token is not valid, before the fetch of the refresh
  settles. If no refresh was in flight and the three credentials are present, the
  first caller sends the one request to the identity provider and the others await
  its promise; if a refresh was in flight already, all of them await it and no request
  is sent. When the fetch settles, every one of these callers receives the same
  outcome of that refresh: the same token when it succeeded, the same error when it
  failed.
\<close>

theorem single_flight:
  assumes inv: "world_inv env w"
      and invalid: "\<forall>(c, now) \<in> set cts. \<not> token_valid (cache w) now"
  shows "(refreshPromise (cache w) = None \<and> missing_credentials env = [] \<and> cts \<noteq> [] \<longrightarrow>
            token_requests (run env tn (calls cts) w) = token_requests w @ [tokenUrl env]
            \<and> waiting (run env tn (calls cts) w)
                = Leader (fst (hd cts)) # map (\<lambda>(c, now). Follower c) (tl cts)
            \<and> settled (run env tn (calls cts) w) = settled w
            \<and> token_requests (run env tn (calls cts @ [Settle t outcome]) w)
                = token_requests w @ [tokenUrl env]
            \<and> settled (run env tn (calls cts @ [Settle t outcome]) w)
                = settled w @ map (\<lambda>(c, now). (c, fst (refresh_try tn t outcome (cache w)))) cts
            \<and> refreshPromise (cache (run env tn (calls cts @ [Settle t outcome]) w)) = None
            \<and> waiting (run env tn (calls cts @ [Settle t outcome]) w) = [])
       \<and> (refreshPromise (cache w) \<noteq> None \<longrightarrow>
            token_requests (run env tn (calls cts) w) = token_requests w
            \<and> waiting (run env tn (calls cts) w) = waiting w @ map (\<lambda>(c, now). Follower c) cts
            \<and> token_requests (run env tn (calls cts @ [Settle t outcome]) w) = token_requests w
            \<and> settled (run env tn (calls cts @ [Settle t outcome]) w)
                = settled w
                  @ map (\<lambda>x. (waiter_id x, fst (refresh_try tn t outcome (cache w)))) (waiting w)
                  @ map (\<lambda>(c, now). (c, fst (refresh_try tn t outcome (cache w)))) cts)"
proof (intro conjI impI)
  assume a: "refreshPromise (cache w) = None \<and> missing_credentials env = [] \<and> cts \<noteq> []"
  then obtain c1 t1 rest where cts: "cts = (c1, t1) # rest" by (cases cts) auto
  let ?w1 = "w\<lparr>token_requests := token_requests w @ [tokenUrl env],
             cache := (cache w)\<lparr>refreshPromise := Some (length (token_requests w))\<rparr>,
             waiting := Leader c1 # map (\<lambda>(c, now). Follower c) rest\<rparr>"
  have r: "run env tn (calls cts) w = ?w1"
    unfolding cts using inv a invalid [unfolded cts] by (intro run_calls_idle) simp_all
  have p: "refreshPromise (cache ?w1) \<noteq> None" by simp
  have r2: "run env tn (calls cts @ [Settle t outcome]) w = settle tn t outcome ?w1"
    by (simp add: run_append r run_Cons run_Nil)
  have res: "fst (refresh_IIFE tn t outcome (cache ?w1)) = fst (refresh_try tn t outcome (cache w))"
    by (rule refresh_IIFE_result)
  show "token_requests (run env tn (calls cts) w) = token_requests w @ [tokenUrl env]"
    by (simp add: r)
  show "waiting (run env tn (calls cts) w)
                = Leader (fst (hd cts)) # map (\<lambda>(c, now). Follower c) (tl cts)"
    by (simp add: r) (simp add: cts)
  show "settled (run env tn (calls cts) w) = settled w" by (simp add: r)
  show "token_requests (run env tn (calls cts @ [Settle t outcome]) w)
                = token_requests w @ [tokenUrl env]"
    unfolding r2 settle_fields(3) [OF p] by simp
  show "settled (run env tn (calls cts @ [Settle t outcome]) w)
                = settled w @ map (\<lambda>(c, now). (c, fst (refresh_try tn t outcome (cache w)))) cts"
    unfolding r2 settle_fields(5) [OF p] res
    by (auto simp: cts)
  show "refreshPromise (cache (run env tn (calls cts @ [Settle t outcome]) w)) = None"
    unfolding r2 by (rule settle_fields(1) [OF p])
  show "waiting (run env tn (calls cts @ [Settle t outcome]) w) = []"
    unfolding r2 by (rule settle_fields(2) [OF p])
next
  assume p0: "refreshPromise (cache w) \<noteq> None"
  let ?w1 = "w\<lparr>waiting := waiting w @ map (\<lambda>(c, now). Follower c) cts\<rparr>"
  from joined_all_invalid [OF invalid]
  have j: "joined w cts = map (\<lambda>(c, now). Follower c) cts" "served w cts = []" by blast+
  have r: "run env tn (calls cts) w = ?w1"
    unfolding run_calls_pending [OF p0] j by simp
  have p: "refreshPromise (cache ?w1) \<noteq> None" using p0 by simp
  have r2: "run env tn (calls cts @ [Settle t outcome]) w = settle tn t outcome ?w1"
    by (simp add: run_append r run_Cons run_Nil)
  have res: "fst (refresh_IIFE tn t outcome (cache ?w1)) = fst (refresh_try tn t outcome (cache w))"
    by (rule refresh_IIFE_result)
  show "token_requests (run env tn (calls cts) w) = token_requests w" by (simp add: r)
  show "waiting (run env tn (calls cts) w) = waiting w @ map (\<lambda>(c, now). Follower c) cts"
    by (simp add: r)
  show "token_requests (run env tn (calls cts @ [Settle t outcome]) w) = token_requests w"
    unfolding r2 settle_fields(3) [OF p] by simp
  show "settled (run env tn (calls cts @ [Settle t outcome]) w)
                = settled w
                  @ map (\<lambda>x. (waiter_id x, fst (refresh_try tn t outcome (cache w)))) (waiting w)
                  @ map (\<lambda>(c, now). (c, fst (refresh_try tn t outcome (cache w)))) cts"
    unfolding r2 settle_fields(5) [OF p] res by auto
qed

theorem single_flight_witness:
  "world_inv env_complete initial_world
   \<and> refreshPromise (cache initial_world) = None \<and> missing_credentials env_complete = []
   \<and> token_requests (run env_complete no_numeric_strings
         (calls [(1, 0), (2, 5), (3, 9)] @ [Settle 40000 (token_reply 3600)]) initial_world)
       = [tokenUrl env_complete]
   \<and> settled (run env_complete no_numeric_strings
         (calls [(1, 0), (2, 5), (3, 9)] @ [Settle 40000 (token_reply 3600)]) initial_world)
       = [(1, Inr (JStr ''tok'')), (2, Inr (JStr ''tok'')), (3, Inr (JStr ''tok''))]
   \<and> world_inv env_complete world_refreshing
   \<and> refreshPromise (cache world_refreshing) = Some 0
   \<and> token_requests (run env_complete no_numeric_strings
         (calls [(2, 5), (3, 9)] @ [Settle 40000 token_refused]) world_refreshing)
       = [tokenUrl env_complete]
   \<and> settled (run env_complete no_numeric_strings
         (calls [(2, 5), (3, 9)] @ [Settle 40000 token_refused]) world_refreshing)
       = [(1, Inl (Error ''Failed to refresh Zoho token: invalid_code'')),
          (2, Inl (Error ''Failed to refresh Zoho token: invalid_code'')),
          (3, Inl (Error ''Failed to refresh Zoho token: invalid_code''))]"
proof -
  have i: "world_inv env_complete initial_world" by (rule initial_world_inv)
  have h: "refreshPromise (cache initial_world) = None" "token_requests initial_world = []"
          "settled initial_world = []"
    by (simp_all add: initial_world_def initial_cache_def)
  have v: "\<forall>(c, now) \<in> set [(1, 0), (2, 5), (3, 9)]. \<not> token_valid (cache initial_world) now"
    by (simp add: initial_world_def initial_cache_def token_valid_def)
  have v2: "\<forall>(c, now) \<in> set [(2, 5), (3, 9)]. \<not> token_valid (cache world_refreshing) now"
    by (simp add: world_refreshing_eq token_valid_def)
  have p: "refreshPromise (cache world_refreshing) = Some 0" 
          "token_requests world_refreshing = [tokenUrl env_complete]"
          "settled world_refreshing = []" "waiting world_refreshing = [Leader 1]"
    by (simp_all add: world_refreshing_eq)
  from single_flight [OF i v, of no_numeric_strings 40000 "token_reply 3600"]
  have 1: "token_requests (run env_complete no_numeric_strings
         (calls [(1, 0), (2, 5), (3, 9)] @ [Settle 40000 (token_reply 3600)]) initial_world)
       = [tokenUrl env_complete]"
    and 2: "settled (run env_complete no_numeric_strings
         (calls [(1, 0), (2, 5), (3, 9)] @ [Settle 40000 (token_reply 3600)]) initial_world)
       = [(1, Inr (JStr ''tok'')), (2, Inr (JStr ''tok'')), (3, Inr (JStr ''tok''))]"
    by (simp_all add: h missing_env_complete token_reply_result)
  from single_flight [OF world_refreshing_inv v2, of no_numeric_strings 40000 token_refused]
  have 3: "token_requests (run env_complete no_numeric_strings
         (calls [(2, 5), (3, 9)] @ [Settle 40000 token_refused]) world_refreshing)
       = [tokenUrl env_complete]"
    and 4: "settled (run env_complete no_numeric_strings
         (calls [(2, 5), (3, 9)] @ [Settle 40000 token_refused]) world_refreshing)
       = [(1, Inl (Error ''Failed to refresh Zoho token: invalid_code'')),
          (2, Inl (Error ''Failed to refresh Zoho token: invalid_code'')),
          (3, Inl (Error ''Failed to refresh Zoho token: invalid_code''))]"
    by (simp_all add: p token_refused_result)
  from i h(1) missing_env_complete 1 2 world_refreshing_inv p(1) 3 4 show ?thesis by blast
qed

subsection \<open>Release of the refresh promise\<close>

text \<open>
  C3. In a world the program reaches with a refresh in flight, whatever the fetch
  settles with and whenever: the refresh promise is cleared and no call is left
  waiting. If the refresh failed, the cached token and expiry are cleared as well, and
  the next call, at any clock, sends a new request to the identity provider and awaits
  the new refresh as its leader. If it succeeded, the cache holds the new token.
\<close>

theorem refresh_released_on_every_exit:
  assumes "world_inv env w" and "refreshPromise (cache w) \<noteq> None"
  shows "refreshPromise (cache (settle tn now outcome w)) = None
       \<and> waiting (settle tn now outcome w) = []
       \<and> (\<forall>e. fst (refresh_try tn now outcome (cache w)) = Inl e \<longrightarrow>
            cache (settle tn now outcome w)
              = \<lparr>access_token = JNull, expires_at = Some 0, refreshPromise = None\<rparr>
            \<and> (\<forall>c t. invoke env c t (settle tn now outcome w) =
                  (Awaiting,
                   (settle tn now outcome w)
                     \<lparr>token_requests := token_requests w @ [tokenUrl env],
                      cache := \<lparr>access_token = JNull, expires_at = Some 0,
                                refreshPromise = Some (length (token_requests w))\<rparr>,
                      waiting := [Leader c]\<rparr>)))
       \<and> (\<forall>v. fst (refresh_try tn now outcome (cache w)) = Inr v \<longrightarrow>
            cache (settle tn now outcome w)
              = (snd (refresh_try tn now outcome (cache w)))\<lparr>refreshPromise := None\<rparr>
            \<and> access_token (cache (settle tn now outcome w)) = v)"
proof (intro conjI allI impI)
  note p = assms(2)
  from assms have lf: "leader_first (waiting w)" and cfg: "missing_credentials env = []"
    by (simp_all add: world_inv_def)
  show "refreshPromise (cache (settle tn now outcome w)) = None"
    by (rule settle_fields(1) [OF p])
  show w0: "waiting (settle tn now outcome w) = []"
    by (rule settle_fields(2) [OF p])
  {
    fix e assume f: "fst (refresh_try tn now outcome (cache w)) = Inl e"
    then have f': "fst (refresh_IIFE tn now outcome (cache w)) = Inl e"
      by (simp add: refresh_IIFE_fst)
    show c: "cache (settle tn now outcome w)
              = \<lparr>access_token = JNull, expires_at = Some 0, refreshPromise = None\<rparr>"
      by (rule settle_cache_failure [OF p lf f'])
    fix c t
    have nv: "\<not> token_valid (cache (settle tn now outcome w)) t"
      by (simp add: c token_valid_def)
    have idle: "refreshPromise (cache (settle tn now outcome w)) = None" by (simp add: c)
    show "invoke env c t (settle tn now outcome w) =
                  (Awaiting,
                   (settle tn now outcome w)
                     \<lparr>token_requests := token_requests w @ [tokenUrl env],
                      cache := \<lparr>access_token = JNull, expires_at = Some 0,
                                refreshPromise = Some (length (token_requests w))\<rparr>,
                      waiting := [Leader c]\<rparr>)"
      unfolding invoke_lead [OF nv idle cfg]
      by (simp add: c w0 settle_fields(3) [OF p])
  }
  {
    fix v assume s: "fst (refresh_try tn now outcome (cache w)) = Inr v"
    then have s': "fst (refresh_IIFE tn now outcome (cache w)) = Inr v"
      by (simp add: refresh_IIFE_fst)
    show c: "cache (settle tn now outcome w)
              = (snd (refresh_try tn now outcome (cache w)))\<lparr>refreshPromise := None\<rparr>"
      unfolding settle_cache_success [OF p s']
      by (simp add: refresh_IIFE_def split: prod.splits)
    obtain c' where r: "refresh_try tn now outcome (cache w) = (Inr v, c')"
      using s by (cases "refresh_try tn now outcome (cache w)") simp
    from refresh_try_success [OF r] have "access_token c' = v"
      by (auto simp: install_token_fields)
    with r show "access_token (cache (settle tn now outcome w)) = v"
      by (simp add: c)
  }
qed

theorem refresh_released_on_every_exit_witness:
  "world_inv env_complete world_refreshing
   \<and> refreshPromise (cache world_refreshing) = Some 0
   \<and> fst (refresh_try no_numeric_strings 777 token_refused (cache world_refreshing))
       = Inl (Error ''Failed to refresh Zoho token: invalid_code'')
   \<and> cache (settle no_numeric_strings 777 token_refused world_refreshing)
       = \<lparr>access_token = JNull, expires_at = Some 0, refreshPromise = None\<rparr>
   \<and> token_requests
        (snd (invoke env_complete 2 888 (settle no_numeric_strings 777 token_refused world_refreshing)))
       = [tokenUrl env_complete, tokenUrl env_complete]
   \<and> fst (refresh_try no_numeric_strings 777 (token_reply 60) (cache world_refreshing))
       = Inr (JStr ''tok'')
   \<and> access_token (cache (settle no_numeric_strings 777 (token_reply 60) world_refreshing))
       = JStr ''tok''"
proof -
  have p: "refreshPromise (cache world_refreshing) \<noteq> None"
          "refreshPromise (cache world_refreshing) = Some 0"
          "token_requests world_refreshing = [tokenUrl env_complete]"
    by (simp_all add: world_refreshing_eq)
  note f = token_refused_result [of no_numeric_strings 777 "cache world_refreshing"]
  note s = token_reply_result [of no_numeric_strings 777 60 "cache world_refreshing"]
  from refresh_released_on_every_exit [OF world_refreshing_inv p(1), of no_numeric_strings 777 token_refused] f
  have 1: "cache (settle no_numeric_strings 777 token_refused world_refreshing)
       = \<lparr>access_token = JNull, expires_at = Some 0, refreshPromise = None\<rparr>"
    and 2: "token_requests
        (snd (invoke env_complete 2 888 (settle no_numeric_strings 777 token_refused world_refreshing)))
       = [tokenUrl env_complete, tokenUrl env_complete]"
    by (simp_all add: p(3))
  from refresh_released_on_every_exit [OF world_refreshing_inv p(1), of no_numeric_strings 777 "token_reply 60"] s
  have 3: "access_token (cache (settle no_numeric_strings 777 (token_reply 60) world_refreshing))
       = JStr ''tok''"
    by blast
  from world_refreshing_inv p(2) f 1 2 s 3 show ?thesis by blast
qed

subsection \<open>Missing credentials\<close>

text \<open>
  C6. In a world the program reaches, when the cached token is not valid, a call made
  with any of the three credentials absent or blank throws at once the error that
  lists exactly the blank variables, in the source's order: no request is sent, the
  cache is untouched, and the call does not wait or try again (no refresh can be in
  flight, since none is ever begun without the credentials). The provider base URL is
  not among the checked variables: with the three credentials present, the base URL
  absent or blank and no refresh in flight, the call sends the refresh request to the
  default domain.
\<close>

theorem missing_credentials_fatal:
  assumes "world_inv env w" and "\<not> token_valid (cache w) now"
  shows "(blank (ZOHO_CRM_REFRESH_TOKEN env) \<or> blank (ZOHO_CRM_CLIENT_ID env) \<or>
          blank (ZOHO_CRM_CLIENT_SECRET env) \<longrightarrow>
            refreshPromise (cache w) = None
            \<and> getZohoAccessToken_begin env c now w =
              (Returned (Inl (Error (''Missing Zoho OAuth credentials: '' @
                  join '', '' (missing_credentials env) @
                  ''. Please set these environment variables.''))), w)
            \<and> missing_credentials env =
                (if blank (ZOHO_CRM_REFRESH_TOKEN env) then [''ZOHO_CRM_REFRESH_TOKEN''] else []) @
                (if blank (ZOHO_CRM_CLIENT_ID env) then [''ZOHO_CRM_CLIENT_ID''] else []) @
                (if blank (ZOHO_CRM_CLIENT_SECRET env) then [''ZOHO_CRM_CLIENT_SECRET''] else [])
            \<and> snd (invoke env c now w) =
                w\<lparr>settled := settled w @ [(c, Inl (missing_error (missing_credentials env)))]\<rparr>
            \<and> token_requests (snd (invoke env c now w)) = token_requests w
            \<and> cache (snd (invoke env c now w)) = cache w
            \<and> waiting (snd (invoke env c now w)) = waiting w)
         \<and> (\<not> blank (ZOHO_CRM_REFRESH_TOKEN env) \<and> \<not> blank (ZOHO_CRM_CLIENT_ID env) \<and>
            \<not> blank (ZOHO_CRM_CLIENT_SECRET env) \<and> blank (ZOHO_CRM_ACCOUNTS_DOMAIN env) \<and>
            refreshPromise (cache w) = None \<longrightarrow>
            accountsDomain env = JStr ''https://accounts.zoho.in''
            \<and> fst (getZohoAccessToken_begin env c now w) = Awaiting
            \<and> token_requests (snd (getZohoAccessToken_begin env c now w))
                = token_requests w @ [tokenUrl env]
            \<and> starts_with (tokenUrl env) ''https://accounts.zoho.in/oauth/v2/token?'')"
proof (intro conjI impI)
  assume bl: "blank (ZOHO_CRM_REFRESH_TOKEN env) \<or> blank (ZOHO_CRM_CLIENT_ID env) \<or>
          blank (ZOHO_CRM_CLIENT_SECRET env)"
  then have m: "missing_credentials env \<noteq> []"
    by (auto simp: missing_credentials_blank)
  with assms(1) show idle: "refreshPromise (cache w) = None"
    by (auto simp: world_inv_def split: if_splits)
  with m assms(2) have b: "getZohoAccessToken_begin env c now w =
      (Returned (Inl (missing_error (missing_credentials env))), w)"
    by (simp add: getZohoAccessToken_begin_def)
  then show "getZohoAccessToken_begin env c now w =
              (Returned (Inl (Error (''Missing Zoho OAuth credentials: '' @
                  join '', '' (missing_credentials env) @
                  ''. Please set these environment variables.''))), w)"
    by (simp add: missing_error_def)
  show "missing_credentials env =
                (if blank (ZOHO_CRM_REFRESH_TOKEN env) then [''ZOHO_CRM_REFRESH_TOKEN''] else []) @
                (if blank (ZOHO_CRM_CLIENT_ID env) then [''ZOHO_CRM_CLIENT_ID''] else []) @
                (if blank (ZOHO_CRM_CLIENT_SECRET env) then [''ZOHO_CRM_CLIENT_SECRET''] else [])"
    by (rule missing_credentials_blank)
  from b show "snd (invoke env c now w) =
                w\<lparr>settled := settled w @ [(c, Inl (missing_error (missing_credentials env)))]\<rparr>"
    by (simp add: invoke_def)
  from b show "token_requests (snd (invoke env c now w)) = token_requests w"
    by (simp add: invoke_def)
  from b show "cache (snd (invoke env c now w)) = cache w"
    by (simp add: invoke_def)
  from b show "waiting (snd (invoke env c now w)) = waiting w"
    by (simp add: invoke_def)
next
  assume p: "\<not> blank (ZOHO_CRM_REFRESH_TOKEN env) \<and> \<not> blank (ZOHO_CRM_CLIENT_ID env) \<and>
            \<not> blank (ZOHO_CRM_CLIENT_SECRET env) \<and> blank (ZOHO_CRM_ACCOUNTS_DOMAIN env) \<and>
            refreshPromise (cache w) = None"
  then have m: "missing_credentials env = []" and idle: "refreshPromise (cache w) = None"
    by (simp_all add: missing_credentials_Nil_iff)
  from p show d: "accountsDomain env = JStr ''https://accounts.zoho.in''"
    by (simp add: accountsDomain_default)
  from m idle assms(2) show "fst (getZohoAccessToken_begin env c now w) = Awaiting"
    by (simp add: getZohoAccessToken_begin_def)
  from m idle assms(2) show "token_requests (snd (getZohoAccessToken_begin env c now w))
                = token_requests w @ [tokenUrl env]"
    by (simp add: getZohoAccessToken_begin_def)
  from d show "starts_with (tokenUrl env) ''https://accounts.zoho.in/oauth/v2/token?''"
    by (simp add: tokenUrl_def starts_with_def)
qed

theorem missing_credentials_fatal_witness:
  "world_inv env_no_secret initial_world \<and> world_inv env_complete initial_world
   \<and> \<not> token_valid (cache initial_world) 5 \<and> refreshPromise (cache initial_world) = None
   \<and> blank (ZOHO_CRM_CLIENT_SECRET env_no_secret)
   \<and> getZohoAccessToken_begin env_no_secret 1 5 initial_world =
       (Returned (Inl (Error (''Missing Zoho OAuth credentials: '' @
                  join '', '' [''ZOHO_CRM_CLIENT_SECRET''] @
                  ''. Please set these environment variables.''))), initial_world)
   \<and> \<not> blank (ZOHO_CRM_REFRESH_TOKEN env_complete) \<and> \<not> blank (ZOHO_CRM_CLIENT_ID env_complete)
   \<and> \<not> blank (ZOHO_CRM_CLIENT_SECRET env_complete) \<and> blank (ZOHO_CRM_ACCOUNTS_DOMAIN env_complete)
   \<and> token_requests (snd (getZohoAccessToken_begin env_complete 1 5 initial_world))
       = [tokenUrl env_complete]"
proof -
  have h: "\<not> token_valid (cache initial_world) 5" "refreshPromise (cache initial_world) = None"
    by (simp_all add: initial_world_def initial_cache_def token_valid_def)
  note i1 = initial_world_inv [of env_no_secret]
  note i2 = initial_world_inv [of env_complete]
  have b: "blank (ZOHO_CRM_CLIENT_SECRET env_no_secret)"
    by (simp add: env_no_secret_def blank_def is_ws_def code_unit_def)
  have p: "\<not> blank (ZOHO_CRM_REFRESH_TOKEN env_complete)"
          "\<not> blank (ZOHO_CRM_CLIENT_ID env_complete)"
          "\<not> blank (ZOHO_CRM_CLIENT_SECRET env_complete)"
          "blank (ZOHO_CRM_ACCOUNTS_DOMAIN env_complete)"
    by (simp_all add: env_complete_def blank_def is_ws_def code_unit_def)
  have t: "token_requests initial_world = []" by (simp add: initial_world_def)
  from missing_credentials_fatal [OF i1 h(1), of 1] b missing_env_no_secret
  have 1: "getZohoAccessToken_begin env_no_secret 1 5 initial_world =
       (Returned (Inl (Error (''Missing Zoho OAuth credentials: '' @
                  join '', '' [''ZOHO_CRM_CLIENT_SECRET''] @
                  ''. Please set these environment variables.''))), initial_world)"
    by simp
  from missing_credentials_fatal [OF i2 h(1), of 1] p t h(2)
  have 2: "token_requests (snd (getZohoAccessToken_begin env_complete 1 5 initial_world))
       = [tokenUrl env_complete]"
    by simp
  from i1 i2 h b p 1 2 show ?thesis by blast
qed

section \<open>Properties of the POST handler\<close>

subsection \<open>Validation of the request body\<close>

lemma bad_data_iff:
  "bad_data d \<longleftrightarrow> (\<forall>x xs. d \<noteq> JArr (x # xs))"
proof (cases d)
  case (JArr ys)
  then show ?thesis by (cases ys) (simp_all add: bad_data_def)
qed (simp_all add: bad_data_def)

lemma get_prop_not_nullish:
  "\<not> nullish v \<Longrightarrow> get_prop v p = Inr (opt_prop v p)"
  by (cases v) simp_all

lemma invalid_body_rejected:
  assumes "req_json rq = Inr body" and "\<not> nullish body" and "bad_data (opt_prop body ''data'')"
  shows "POST env tn rq w = (invalid_request, w)"
  using assms by (simp add: POST_def get_prop_not_nullish)

text \<open>
  C10. A request whose body is the JSON value \<^verbatim>\<open>null\<close> has no \<^verbatim>\<open>data\<close> field, yet it
  is not answered with 400: line 221 reads \<^verbatim>\<open>body.data\<close>, the read throws, and the
  catch-all answers 500. (No token is acquired and the cache stays as it was.)
\<close>

theorem null_body_internal_error:
  "POST env_complete no_numeric_strings (run_with (Inr JNull) (crm_reply (crm_item ''SUCCESS'' ''ok'')))
     initial_world
     = (\<lparr>http_status = 500,
         json_body = JObj [(''error'', JStr ''Internal server error. Please try again later.''),
                           (''details'', JUndefined)]\<rparr>,
        initial_world)
   \<and> http_status (fst (POST env_complete no_numeric_strings
          (run_with (Inr JNull) (crm_reply (crm_item ''SUCCESS'' ''ok''))) initial_world)) \<noteq> 400"
  by (simp add: POST_def run_with_def internal_error_def env_complete_def)

subsection \<open>The status per outcome\<close>









subsection \<open>Normalising the interests\<close>

lemma last_dropWhile: "dropWhile P xs \<noteq> [] \<Longrightarrow> last (dropWhile P xs) = last xs"
  by (induction xs) (auto split: if_splits)

lemma trim_trimmed: "trimmed (trim s)"
proof (cases "trim s = []")
  case True
  then show ?thesis by (simp add: trimmed_def)
next
  case False
  let ?ys = "dropWhile is_ws s"
  let ?zs = "dropWhile is_ws (rev ?ys)"
  from False have z: "?zs \<noteq> []" by (simp add: trim_def)
  then have y: "?ys \<noteq> []" by (metis dropWhile.simps(1) rev.simps(1))
  have "last (trim s) = hd ?zs" using z by (simp add: trim_def last_rev)
  moreover have "\<not> is_ws (hd ?zs)" using z by (rule hd_dropWhile)
  moreover have "hd (trim s) = last ?zs" using z by (simp add: trim_def hd_rev)
  moreover have "last ?zs = last (rev ?ys)" using z by (rule last_dropWhile)
  moreover have "last (rev ?ys) = hd ?ys" using y by (simp add: last_rev)
  moreover have "\<not> is_ws (hd ?ys)" using y by (rule hd_dropWhile)
  ultimately show ?thesis using False by (simp add: trimmed_def)
qed

lemma split_comma_not_Nil: "split_comma s \<noteq> []"
  by (induction s) (auto split: list.splits)

lemma join_Cons: "ps \<noteq> [] \<Longrightarrow> join sep (p # ps) = p @ sep @ join sep ps"
  by (cases ps) simp_all

lemma split_comma_join: "join '','' (split_comma s) = s"
proof (induction s)
  case Nil
  show ?case by simp
next
  case (Cons c cs)
  show ?case
  proof (cases "c = CHR '',''")
    case True
    with Cons show ?thesis by (simp add: join_Cons split_comma_not_Nil)
  next
    case False
    obtain p ps where sp: "split_comma cs = p # ps"
      using split_comma_not_Nil [of cs] by (cases "split_comma cs") auto
    with Cons False show ?thesis by (cases ps) simp_all
  qed
qed

lemma split_comma_pieces: "p \<in> set (split_comma s) \<Longrightarrow> CHR '','' \<notin> set p"
  by (induction s arbitrary: p) (auto split: if_splits list.splits)

lemma js_gt0_num [simp]: "js_gt0 tn (JNum n) \<longleftrightarrow> 0 < n"
  by (simp add: js_gt0_def)

lemma interestsArray_string:
  "interestsArray tn (JStr s) = map JStr (filter (\<lambda>p. p \<noteq> []) (map trim (split_comma s)))"
proof (cases "s = []")
  case True
  then show ?thesis by (simp add: interestsArray_def trim_def)
next
  case False
  then show ?thesis
    by (simp add: interestsArray_def filter_map comp_def)
qed

lemma interestsArray_strings:
  assumes "list_all is_str xs"
  shows "interestsArray tn (JArr xs) = filter (\<lambda>x. x \<noteq> JStr []) (map trim_if_string xs)"
proof -
  have "filter (\<lambda>i. truthy i \<and> js_gt0 tn (opt_prop i ''length'')) (map trim_if_string xs)
        = filter (\<lambda>x. x \<noteq> JStr []) (map trim_if_string xs)"
    using assms
  proof (induction xs)
    case Nil
    show ?case by simp
  next
    case (Cons x xs)
    then obtain s where "x = JStr s" by (cases x) simp_all
    with Cons show ?case by simp
  qed
  then show ?thesis by (simp add: interestsArray_def)
qed

lemma interestsArray_string_elements:
  assumes "JStr s \<in> set (interestsArray tn v)"
  shows "s \<noteq> [] \<and> trimmed s"
proof (cases v)
  case (JStr t)
  with assms show ?thesis by (auto simp: interestsArray_string trim_trimmed)
next
  case (JArr xs)
  with assms obtain y where y: "y \<in> set xs" "trim_if_string y = JStr s"
      "truthy (JStr s)"
    by (auto simp: interestsArray_def)
  from y(2) obtain s0 where "y = JStr s0" by (cases y) simp_all
  with y show ?thesis by (auto simp: trim_trimmed)
qed (use assms in \<open>simp_all add: interestsArray_def\<close>)

lemma payloadItem_interests:
  assumes "payloadItem tn item = Inr p"
  shows "opt_prop p ''Pick_Your_Interests'' = JArr (interestsArray tn (opt_prop item ''Interests''))"
proof -
  from assms have n: "\<not> nullish item"
    by (cases item) (simp_all add: payloadItem_def bind_err_def)
  from assms show ?thesis
    by (auto simp: payloadItem_def bind_err_def get_prop_not_nullish [OF n] lookup_def
             split: sum.splits)
qed

text \<open>
  C5, as the claim states it, fails on a repeated interest: the string
  \<^verbatim>\<open>Others, Others\<close> and an array that holds it twice both become an array in
  which \<^verbatim>\<open>Others\<close> stands twice. Nothing in lines 258 to 272 removes duplicates.
\<close>

theorem interests_not_deduplicated_counterexample:
  "interestsArray no_numeric_strings (JStr ''Others, Others'') = [JStr ''Others'', JStr ''Others'']
   \<and> \<not> distinct (interestsArray no_numeric_strings (JStr ''Others, Others''))
   \<and> interestsArray no_numeric_strings (JArr [JStr ''Others'', JStr '' Others''])
       = [JStr ''Others'', JStr ''Others'']
   \<and> \<not> distinct (interestsArray no_numeric_strings (JArr [JStr ''Others'', JStr '' Others'']))"
  by code_simp

text \<open>
  C5, amended. The Interests value of an item is normalised into an array whose string
  elements are trimmed and not empty; order and repetitions are kept. A string is cut
  at its commas, each piece trimmed and the empty pieces dropped; an array of strings
  has each element trimmed and the empty ones dropped; the array so built is what the
  payload item carries as \<^verbatim>\<open>Pick_Your_Interests\<close>.
\<close>

theorem interests_normalized:
  "(\<forall>x \<in> set (interestsArray tn v). \<forall>s. x = JStr s \<longrightarrow> s \<noteq> [] \<and> trimmed s)
   \<and> (\<forall>s. v = JStr s \<longrightarrow>
         interestsArray tn v = map JStr (filter (\<lambda>p. p \<noteq> []) (map trim (split_comma s))))
   \<and> (\<forall>xs. v = JArr xs \<and> list_all is_str xs \<longrightarrow>
         interestsArray tn v = filter (\<lambda>x. x \<noteq> JStr []) (map trim_if_string xs))
   \<and> (\<forall>item p. payloadItem tn item = Inr p \<and> opt_prop item ''Interests'' = v \<longrightarrow>
         opt_prop p ''Pick_Your_Interests'' = JArr (interestsArray tn v))"
  using interestsArray_string_elements [of _ tn v] interestsArray_string [of tn]
    interestsArray_strings [of _ tn] payloadItem_interests [of tn]
  by blast

theorem interests_normalized_witness:
  "interestsArray no_numeric_strings (JStr '' a , b,,a '') = [JStr ''a'', JStr ''b'', JStr ''a'']
   \<and> JStr ''a'' \<in> set (interestsArray no_numeric_strings (JStr '' a , b,,a ''))
   \<and> trimmed ''a''
   \<and> list_all is_str [JStr '' a'', JStr '' '', JStr ''a'']
   \<and> interestsArray no_numeric_strings (JArr [JStr '' a'', JStr '' '', JStr ''a''])
       = [JStr ''a'', JStr ''a'']
   \<and> payloadItem no_numeric_strings (JObj [(''Name'', JStr ''n ''), (''Interests'', JStr '' a , b,,a '')])
       = Inr (JObj [(''Name'', JStr ''n''), (''Email'', JUndefined), (''Lead_Source'', JStr ''Website''),
                    (''Pick_Your_Interests'', JArr [JStr ''a'', JStr ''b'', JStr ''a''])])"
proof -
  have e: "map JStr (filter (\<lambda>p. p \<noteq> []) (map trim (split_comma '' a , b,,a '')))
             = [JStr ''a'', JStr ''b'', JStr ''a'']"
    by code_simp
  have f: "filter (\<lambda>x. x \<noteq> JStr []) (map trim_if_string [JStr '' a'', JStr '' '', JStr ''a''])
             = [JStr ''a'', JStr ''a'']"
    by code_simp
  have l: "list_all is_str [JStr '' a'', JStr '' '', JStr ''a'']" by simp
  have p: "payloadItem no_numeric_strings (JObj [(''Name'', JStr ''n ''), (''Interests'', JStr '' a , b,,a '')])
       = Inr (JObj [(''Name'', JStr ''n''), (''Email'', JUndefined), (''Lead_Source'', JStr ''Website''),
                    (''Pick_Your_Interests'', JArr [JStr ''a'', JStr ''b'', JStr ''a''])])"
    by code_simp
  note t1 = interests_normalized [of no_numeric_strings "JStr '' a , b,,a ''"]
  note t2 = interests_normalized [of no_numeric_strings "JArr [JStr '' a'', JStr '' '', JStr ''a'']"]
  note t1a = t1 [THEN conjunct1]
  note t1b = t1 [THEN conjunct2, THEN conjunct1, rule_format, OF refl]
  note t2c = t2 [THEN conjunct2, THEN conjunct2, THEN conjunct1, rule_format, OF conjI, OF refl l]
  have 1: "interestsArray no_numeric_strings (JStr '' a , b,,a '')
      = [JStr ''a'', JStr ''b'', JStr ''a'']"
    by (rule trans [OF t1b e])
  have 2: "JStr ''a'' \<in> set (interestsArray no_numeric_strings (JStr '' a , b,,a ''))"
    unfolding 1 by simp
  from t1a [rule_format, OF 2 refl] have 3: "trimmed ''a''" by (rule conjunct2)
  have 4: "interestsArray no_numeric_strings (JArr [JStr '' a'', JStr '' '', JStr ''a''])
       = [JStr ''a'', JStr ''a'']"
    by (rule trans [OF t2c f])
  from 1 2 3 l 4 p show ?thesis by (intro conjI)
qed

subsection \<open>No timeout of the server's own\<close>

lemma served_all_returns: "list_all (\<lambda>(c, r). r = Inr (access_token (cache w))) (served w cts)"
  by (induction cts) (auto simp: served_def)

lemma refresh_try_rejected: "fst (refresh_try tn now (Rejected e) c) = Inl e"
  by (simp add: refresh_try_def)

lemma POST_crm_rejected:
  assumes "req_json rq = Inr body" and "\<not> nullish body"
      and "\<not> bad_data (opt_prop body ''data'')"
      and "getZohoAccessToken env tn rq w = (Inr accessToken, w1)"
      and "build_payload tn (opt_prop body ''data'') = Inr payload"
      and "crm_fetch rq = Rejected e"
  shows "fst (POST env tn rq w) = internal_error env e"
  using assms by (simp add: POST_def get_prop_not_nullish Let_def)

text \<open>
  C8, as the claim states it, fails: the source passes no abort signal to either
  \<^verbatim>\<open>fetch\<close> and sets no timer (lines 71 to 76 and 286 to 293), so nothing but the
  settlement of the fetch ends a refresh. A caller begins a refresh at clock 0; callers
  arriving 31 seconds and some eleven days later find it still in flight and wait with
  it; no call has completed, as a failure or otherwise.
\<close>

theorem no_timeout_counterexample:
  "refreshPromise (cache (run env_complete no_numeric_strings
       (calls [(1, 0), (2, 31000), (3, 1000000000)]) initial_world)) = Some 0
   \<and> waiting (run env_complete no_numeric_strings
       (calls [(1, 0), (2, 31000), (3, 1000000000)]) initial_world)
       = [Leader 1, Follower 2, Follower 3]
   \<and> settled (run env_complete no_numeric_strings
       (calls [(1, 0), (2, 31000), (3, 1000000000)]) initial_world) = []
   \<and> token_requests (run env_complete no_numeric_strings
       (calls [(1, 0), (2, 31000), (3, 1000000000)]) initial_world) = [tokenUrl env_complete]"
  by (simp add: run_def calls_def invoke_def getZohoAccessToken_begin_def
        initial_world_def initial_cache_def token_valid_def missing_env_complete)

text \<open>
  C8, amended. While the fetch of a refresh has not settled the refresh stays in flight,
  whatever the clocks of the calls that arrive: they are served from the cache when it
  is still valid for them and wait otherwise; none completes as a failure and no
  further request is sent. Whenever the fetch settles, and whatever with, the refresh
  promise is cleared and every waiting call completes with the outcome of the refresh;
  a fetch that rejects (a transport failure, an abort by the runtime) makes that
  outcome the failure it rejected with. A rejected fetch to the CRM makes the handler
  answer 500 through its catch-all.
\<close>

theorem refresh_pending_until_settled:
  assumes "world_inv env w" and "refreshPromise (cache w) \<noteq> None"
  shows "cache (run env tn (calls cts) w) = cache w
       \<and> token_requests (run env tn (calls cts) w) = token_requests w
       \<and> waiting (run env tn (calls cts) w) = waiting w @ joined w cts
       \<and> settled (run env tn (calls cts) w) = settled w @ served w cts
       \<and> list_all (\<lambda>(c, r). r = Inr (access_token (cache w))) (served w cts)
       \<and> refreshPromise (cache (settle tn now outcome w)) = None
       \<and> waiting (settle tn now outcome w) = []
       \<and> settled (settle tn now outcome w)
           = settled w @ map (\<lambda>x. (waiter_id x, fst (refresh_try tn now outcome (cache w)))) (waiting w)
       \<and> fst (refresh_try tn now (Rejected e) (cache w)) = Inl e
       \<and> (\<forall>rq body accessToken w1 payload.
            req_json rq = Inr body \<and> \<not> nullish body \<and> \<not> bad_data (opt_prop body ''data'') \<and>
            getZohoAccessToken env tn rq w = (Inr accessToken, w1) \<and>
            build_payload tn (opt_prop body ''data'') = Inr payload \<and>
            crm_fetch rq = Rejected e \<longrightarrow>
            fst (POST env tn rq w) = internal_error env e)"
proof -
  note p = assms(2)
  note r = run_calls_pending [OF p, of env tn cts]
  have s: "settled (settle tn now outcome w)
           = settled w @ map (\<lambda>x. (waiter_id x, fst (refresh_try tn now outcome (cache w)))) (waiting w)"
    unfolding settle_fields(5) [OF p] refresh_IIFE_fst ..
  have c: "\<forall>rq body accessToken w1 payload.
            req_json rq = Inr body \<and> \<not> nullish body \<and> \<not> bad_data (opt_prop body ''data'') \<and>
            getZohoAccessToken env tn rq w = (Inr accessToken, w1) \<and>
            build_payload tn (opt_prop body ''data'') = Inr payload \<and>
            crm_fetch rq = Rejected e \<longrightarrow>
            fst (POST env tn rq w) = internal_error env e"
    using POST_crm_rejected by blast
  show ?thesis
    unfolding r using s c
    by (simp add: served_all_returns settle_fields(1,2) [OF p] refresh_try_rejected)
qed

lemma jane_payload:
  "build_payload no_numeric_strings (opt_prop jane ''data'')
     = Inr (JObj [(''data'', JArr [JObj
         [(''Name'', JStr ''Jane Doe''), (''Email'', JStr ''jane@x.com''),
          (''Lead_Source'', JStr ''Website''),
          (''Pick_Your_Interests'', JArr [JStr ''Corporate Advisory'', JStr ''Others'', JStr ''Others''])]])])"
  by code_simp

lemma jane_well_formed: "\<not> nullish jane" "\<not> bad_data (opt_prop jane ''data'')"
  by (simp_all add: jane_def lookup_def bad_data_def)

lemma follower_gets_token:
  "fst (getZohoAccessToken env_complete no_numeric_strings (run_with b crm) world_refreshing)
     = Inr (JStr ''tok'')"
  by (simp add: getZohoAccessToken_def invoke_def getZohoAccessToken_begin_def run_with_def
        world_refreshing_eq token_valid_def refresh_IIFE_fst token_reply_result)

theorem refresh_pending_until_settled_witness:
  "world_inv env_complete world_refreshing
   \<and> refreshPromise (cache world_refreshing) = Some 0
   \<and> cache (run env_complete no_numeric_strings (calls [(2, 31000), (3, 1000000000)]) world_refreshing)
       = cache world_refreshing
   \<and> settled (settle no_numeric_strings 1000000001 (Rejected (TypeError ''fetch failed''))
        (run env_complete no_numeric_strings (calls [(2, 31000), (3, 1000000000)]) world_refreshing))
       = [(1, Inl (TypeError ''fetch failed'')), (2, Inl (TypeError ''fetch failed'')),
          (3, Inl (TypeError ''fetch failed''))]
   \<and> refreshPromise (cache (settle no_numeric_strings 1000000001 (Rejected (TypeError ''fetch failed''))
        (run env_complete no_numeric_strings (calls [(2, 31000), (3, 1000000000)]) world_refreshing)))
       = None
   \<and> fst (POST env_complete no_numeric_strings
        (run_with (Inr jane) (Rejected (TypeError ''fetch failed''))) world_refreshing)
       = internal_error env_complete (TypeError ''fetch failed'')"
proof -
  let ?e = "TypeError ''fetch failed''"
  let ?cts = "[(2, 31000), (3, 1000000000)] :: (nat \<times> nat) list"
  let ?w1 = "run env_complete no_numeric_strings (calls ?cts) world_refreshing"
  let ?rq = "run_with (Inr jane) (Rejected ?e)"
  have p: "refreshPromise (cache world_refreshing) \<noteq> None"
          "refreshPromise (cache world_refreshing) = Some 0"
    by (simp_all add: world_refreshing_eq)
  note t = refresh_pending_until_settled [OF world_refreshing_inv p(1)]
  have j: "joined world_refreshing ?cts = [Follower 2, Follower 3]" "served world_refreshing ?cts = []"
    by (simp_all add: joined_def served_def world_refreshing_eq token_valid_def)
  have c: "cache ?w1 = cache world_refreshing"
    using t [of no_numeric_strings ?cts] by blast
  have wt: "waiting ?w1 = [Leader 1, Follower 2, Follower 3]" and st: "settled ?w1 = []"
    using t [of no_numeric_strings ?cts] j by (simp_all add: world_refreshing_eq)
  have i1: "world_inv env_complete ?w1" by (rule run_world_inv [OF world_refreshing_inv])
  have p1: "refreshPromise (cache ?w1) \<noteq> None" using c p(1) by simp
  note t1 = refresh_pending_until_settled [OF i1 p1, of no_numeric_strings ?cts 1000000001 "Rejected ?e" ?e]
  have s: "settled (settle no_numeric_strings 1000000001 (Rejected ?e) ?w1)
       = [(1, Inl ?e), (2, Inl ?e), (3, Inl ?e)]"
    using t1 by (simp add: wt st refresh_try_rejected)
  have r: "refreshPromise (cache (settle no_numeric_strings 1000000001 (Rejected ?e) ?w1)) = None"
    using t1 by blast
  have g: "getZohoAccessToken env_complete no_numeric_strings ?rq world_refreshing
       = (Inr (JStr ''tok''),
          snd (getZohoAccessToken env_complete no_numeric_strings ?rq world_refreshing))"
    using follower_gets_token [of "Inr jane" "Rejected ?e"]
    by (metis prod.collapse)
  have q: "req_json ?rq = Inr jane" "crm_fetch ?rq = Rejected ?e"
    by (simp_all add: run_with_def)
  from t [of no_numeric_strings "[]" 0 "Rejected ?e" ?e]
  have "\<forall>rq body accessToken w1 payload.
            req_json rq = Inr body \<and> \<not> nullish body \<and> \<not> bad_data (opt_prop body ''data'') \<and>
            getZohoAccessToken env_complete no_numeric_strings rq world_refreshing = (Inr accessToken, w1) \<and>
            build_payload no_numeric_strings (opt_prop body ''data'') = Inr payload \<and>
            crm_fetch rq = Rejected ?e \<longrightarrow>
            fst (POST env_complete no_numeric_strings rq world_refreshing) = internal_error env_complete ?e"
    by blast
  with q jane_well_formed g jane_payload
  have po: "fst (POST env_complete no_numeric_strings ?rq world_refreshing)
       = internal_error env_complete ?e"
    by blast
  from world_refreshing_inv p(2) c s r po show ?thesis by (intro conjI)
qed

subsection \<open>Requests keep the invariant\<close>

lemma reachable_world_inv: "world_inv env (run env tn evs initial_world)"
  by (rule run_world_inv [OF initial_world_inv])

lemma world_inv_crm_requests [simp]:
  "world_inv env (w\<lparr>crm_requests := x\<rparr>) = world_inv env w"
  by (simp add: world_inv_def)

lemma getZohoAccessToken_world_inv:
  assumes "world_inv env w"
  shows "world_inv env (snd (getZohoAccessToken env tn rq w))"
proof (cases "invoke env (caller rq) (now_call rq) w")
  case (Pair res w')
  from invoke_world_inv [OF assms, of "caller rq" "now_call rq"] Pair
  have i: "world_inv env w'" by simp
  show ?thesis
  proof (cases res)
    case (Returned r)
    with Pair i show ?thesis by (simp add: getZohoAccessToken_def)
  next
    case Awaiting
    with Pair settle_world_inv [OF i] show ?thesis by (simp add: getZohoAccessToken_def)
  qed
qed

lemma POST_world_inv:
  assumes "world_inv env w"
  shows "world_inv env (snd (POST env tn rq w))"
proof -
  obtain r w1 where g: "getZohoAccessToken env tn rq w = (r, w1)"
    by (cases "getZohoAccessToken env tn rq w")
  with getZohoAccessToken_world_inv [OF assms, of tn rq] have "world_inv env w1" by simp
  with assms g show ?thesis
    by (auto simp: POST_def Let_def
             split: sum.splits if_splits fetch_outcome.splits)
qed

end
